theory Spec2Isabelle
  imports Complex_Main "HOL-Library.Multiset" "HOL-Library.AList"
begin

section \<open>Downtime reconstruction and OEE analytics (utils/analytics.ts)\<close>

text \<open>
  The development embeds the analytics module of the machine-monitoring dashboard:
  \<^verbatim>\<open>getCycleTimeInSeconds\<close>, \<^verbatim>\<open>getDowntimeIntervals\<close>, \<^verbatim>\<open>calculateFleetMetrics\<close>,
  \<^verbatim>\<open>calculatePareto\<close> and \<^verbatim>\<open>generateAIInsights\<close>.

  Modelling conventions.
  \<^item> Instants and durations are integers (milliseconds since the epoch); an ISO timestamp
    string stands for the instant \<^verbatim>\<open>new Date(s).getTime()\<close> it parses to, so unparsable
    timestamps (NaN) are outside the model.
  \<^item> JavaScript numbers that result from a division are exact rationals: the IEEE-754
    rounding of each operation is not modelled.  \<^verbatim>\<open>Math.round\<close> is rounding half up.
  \<^item> \<^verbatim>\<open>Date.now()\<close> is one explicit instant \<open>now\<close> for the whole call.
  \<^item> The module \<^verbatim>\<open>utils/timeCalculations\<close> (the shift clock) is imported by the analytics
    module and is not embedded here; its two functions \<^verbatim>\<open>calculateActiveDowntime\<close> and
    \<^verbatim>\<open>getElapsedShiftTimeTodayMs\<close> are parameters \<open>cad\<close> and \<open>gest\<close> of every definition
    that calls them (\<open>cad start workHours now\<close>, \<open>gest workHours now\<close>); a call that
    leaves the instant out reads the clock, so it is taken at \<open>now\<close>.
  \<^item> \<^verbatim>\<open>Array.prototype.sort\<close> with a numeric comparator is the stable sort by that key
    (\<open>sort_key\<close>).
  \<^item> A plain object used as a dictionary is an association list in insertion order
    (\<^verbatim>\<open>grouped\<close>) or a map (\<^verbatim>\<open>activeStops\<close>); stoppage reasons are assumed not to be
    array-index strings or names inherited from \<^verbatim>\<open>Object.prototype\<close>.
\<close>

subsection \<open>Types\<close>

datatype MachineStatus = RUNNING | STOPPED

datatype CycleUnit = SECONDS | MINUTES | HOURS

record WorkHoursConfig =
  wh_enabled :: bool
  wh_start :: string
  wh_end :: string

record Machine =
  m_id :: int
  m_name :: string
  m_status :: MachineStatus
  m_reason :: "string option"
  m_lastUpdated :: int
  m_accumulatedDowntimeMs :: int
  m_productionCount :: int
  m_scrapCount :: int
  m_cycleTimeValue :: rat
  m_cycleTimeUnit :: CycleUnit

record MachineHistoryLog =
  l_machineId :: int
  l_previousStatus :: MachineStatus
  l_newStatus :: MachineStatus
  l_reason :: "string option"
  l_timestamp :: int

text \<open>The element type of the local array \<^verbatim>\<open>intervals\<close> and the value type of \<^verbatim>\<open>activeStops\<close>.\<close>

record DowntimeInterval =
  i_machineId :: int
  i_reason :: string
  i_start :: int
  i_end :: int
  i_duration :: int

record ActiveStop =
  a_start :: int
  a_reason :: string

record MachineMetrics =
  mm_machineId :: int
  mm_machineName :: string
  mm_totalDowntimeMs :: int
  mm_failureCount :: nat
  mm_mtbf :: rat
  mm_mttr :: int
  mm_availability :: rat
  mm_performance :: rat
  mm_quality :: rat
  mm_oee :: rat

record ParetoItem =
  p_reason :: string
  p_count :: nat
  p_durationMs :: int
  p_accumulatedPercent :: "int option"

type_synonym ActiveDowntimeFn = "int \<Rightarrow> WorkHoursConfig \<Rightarrow> int \<Rightarrow> int"

type_synonym ElapsedShiftFn = "WorkHoursConfig \<Rightarrow> int \<Rightarrow> int"

subsection \<open>Numeric helpers\<close>

text \<open>\<^verbatim>\<open>Math.round(x)\<close>: the nearest integer, a tie going up.\<close>

definition Math_round :: "rat \<Rightarrow> int" where
  "Math_round x = \<lfloor>x + 1 / 2\<rfloor>"

text \<open>\<^verbatim>\<open>Math.round(x * 10) / 10\<close>.\<close>

definition round1 :: "rat \<Rightarrow> rat" where
  "round1 x = of_int (Math_round (x * 10)) / 10"

text \<open>\<^verbatim>\<open>Math.min(100, Math.max(0, x))\<close>.\<close>

definition clampPercent :: "rat \<Rightarrow> rat" where
  "clampPercent x = min 100 (max 0 x)"

definition getCycleTimeInSeconds :: "rat \<Rightarrow> CycleUnit \<Rightarrow> rat" where
  "getCycleTimeInSeconds val u =
     (if val \<le> 0 then 30
      else (case u of MINUTES \<Rightarrow> val * 60 | HOURS \<Rightarrow> val * 3600 | SECONDS \<Rightarrow> val))"

subsection \<open>getDowntimeIntervals\<close>

text \<open>\<^verbatim>\<open>log.reason || 'Desconhecido'\<close>: a missing or empty reason becomes the sentinel.\<close>

definition reasonOrDefault :: "string option \<Rightarrow> string" where
  "reasonOrDefault r = (case r of None \<Rightarrow> ''Desconhecido'' | Some s \<Rightarrow> if s = [] then ''Desconhecido'' else s)"

text \<open>\<^verbatim>\<open>filterStart && ts < filterStart.getTime()\<close>.\<close>

definition beforeFilter :: "int option \<Rightarrow> int \<Rightarrow> bool" where
  "beforeFilter filterStart ts = (case filterStart of None \<Rightarrow> False | Some f \<Rightarrow> ts < f)"

text \<open>
  The body of \<^verbatim>\<open>sortedLogs.forEach\<close>: the state is the pair of the array \<^verbatim>\<open>intervals\<close>
  and the dictionary \<^verbatim>\<open>activeStops\<close>.
\<close>

definition replayLog ::
  "int option \<Rightarrow> DowntimeInterval list \<times> (int \<rightharpoonup> ActiveStop) \<Rightarrow> MachineHistoryLog
     \<Rightarrow> DowntimeInterval list \<times> (int \<rightharpoonup> ActiveStop)" where
  "replayLog filterStart st ev =
     (let intervals = fst st; activeStops = snd st; ts = l_timestamp ev in
      if beforeFilter filterStart ts then (intervals, activeStops)
      else if l_newStatus ev = STOPPED then
        (intervals,
         activeStops(l_machineId ev \<mapsto> \<lparr>a_start = ts, a_reason = reasonOrDefault (l_reason ev)\<rparr>))
      else if l_newStatus ev = RUNNING then
        (case activeStops (l_machineId ev) of
           None \<Rightarrow> (intervals, activeStops)
         | Some open_stop \<Rightarrow>
             (intervals @
                [\<lparr>i_machineId = l_machineId ev, i_reason = a_reason open_stop,
                  i_start = a_start open_stop, i_end = ts,
                  i_duration = ts - a_start open_stop\<rparr>],
              activeStops(l_machineId ev := None)))
      else (intervals, activeStops))"

definition replayLogs ::
  "int option \<Rightarrow> MachineHistoryLog list \<Rightarrow> DowntimeInterval list \<times> (int \<rightharpoonup> ActiveStop)" where
  "replayLogs filterStart sortedLogs = foldl (replayLog filterStart) ([], Map.empty) sortedLogs"

text \<open>The body of \<^verbatim>\<open>machines.forEach\<close>: what one machine snapshot pushes.\<close>

definition openInterval ::
  "ActiveDowntimeFn \<Rightarrow> int \<Rightarrow> WorkHoursConfig \<Rightarrow> (int \<rightharpoonup> ActiveStop) \<Rightarrow> Machine
     \<Rightarrow> DowntimeInterval list" where
  "openInterval cad now workHours activeStops m =
     (if m_status m = STOPPED then
        (case activeStops (m_id m) of
           None \<Rightarrow> []
         | Some open_stop \<Rightarrow>
             [\<lparr>i_machineId = m_id m, i_reason = a_reason open_stop,
               i_start = a_start open_stop, i_end = now,
               i_duration = cad (a_start open_stop) workHours now\<rparr>])
      else [])"

definition openIntervals ::
  "ActiveDowntimeFn \<Rightarrow> int \<Rightarrow> WorkHoursConfig \<Rightarrow> (int \<rightharpoonup> ActiveStop) \<Rightarrow> Machine list
     \<Rightarrow> DowntimeInterval list" where
  "openIntervals cad now workHours activeStops machines =
     concat (map (openInterval cad now workHours activeStops) machines)"

definition getDowntimeIntervals ::
  "ActiveDowntimeFn \<Rightarrow> int \<Rightarrow> MachineHistoryLog list \<Rightarrow> Machine list \<Rightarrow> WorkHoursConfig
     \<Rightarrow> int option \<Rightarrow> DowntimeInterval list" where
  "getDowntimeIntervals cad now history machines workHours filterStart =
     (let sortedLogs = sort_key l_timestamp history;
          replayed = replayLogs filterStart sortedLogs
      in fst replayed @ openIntervals cad now workHours (snd replayed) machines)"

subsection \<open>calculateFleetMetrics\<close>

definition THIRTY_DAYS_MS :: int where
  "THIRTY_DAYS_MS = 30 * 24 * 60 * 60 * 1000"

definition machineIntervalsAll :: "DowntimeInterval list \<Rightarrow> Machine \<Rightarrow> DowntimeInterval list" where
  "machineIntervalsAll intervals machine = filter (\<lambda>i. i_machineId i = m_id machine) intervals"

definition totalDowntimeHistorical :: "DowntimeInterval list \<Rightarrow> Machine \<Rightarrow> int" where
  "totalDowntimeHistorical intervals machine =
     foldl (\<lambda>acc curr. acc + i_duration curr) 0 (machineIntervalsAll intervals machine)"

definition failureCount :: "DowntimeInterval list \<Rightarrow> Machine \<Rightarrow> nat" where
  "failureCount intervals machine = length (machineIntervalsAll intervals machine)"

definition mttrMinutes :: "DowntimeInterval list \<Rightarrow> Machine \<Rightarrow> rat" where
  "mttrMinutes intervals machine =
     (if failureCount intervals machine > 0
      then (of_int (totalDowntimeHistorical intervals machine)
              / of_nat (failureCount intervals machine)) / 1000 / 60
      else 0)"

definition uptimeHistorical :: "DowntimeInterval list \<Rightarrow> Machine \<Rightarrow> int" where
  "uptimeHistorical intervals machine = THIRTY_DAYS_MS - totalDowntimeHistorical intervals machine"

definition mtbfHours :: "DowntimeInterval list \<Rightarrow> Machine \<Rightarrow> rat" where
  "mtbfHours intervals machine =
     (if failureCount intervals machine > 0
      then (of_int (uptimeHistorical intervals machine)
              / of_nat (failureCount intervals machine)) / 1000 / 3600
      else of_int (uptimeHistorical intervals machine) / 1000 / 3600)"

definition currentStopDuration :: "ActiveDowntimeFn \<Rightarrow> int \<Rightarrow> WorkHoursConfig \<Rightarrow> Machine \<Rightarrow> int" where
  "currentStopDuration cad now workHours machine =
     (if m_status machine = STOPPED then cad (m_lastUpdated machine) workHours now else 0)"

definition downtimeTodayMs :: "ActiveDowntimeFn \<Rightarrow> int \<Rightarrow> WorkHoursConfig \<Rightarrow> Machine \<Rightarrow> int" where
  "downtimeTodayMs cad now workHours machine =
     m_accumulatedDowntimeMs machine + currentStopDuration cad now workHours machine"

definition runTimeMs :: "int \<Rightarrow> int \<Rightarrow> int" where
  "runTimeMs plannedProductionTimeMs downtimeToday = max 0 (plannedProductionTimeMs - downtimeToday)"

definition availability :: "int \<Rightarrow> int \<Rightarrow> rat" where
  "availability plannedProductionTimeMs downtimeToday =
     (if plannedProductionTimeMs > 0
      then (of_int (runTimeMs plannedProductionTimeMs downtimeToday)
              / of_int plannedProductionTimeMs) * 100
      else 0)"

definition cycleTimeSeconds :: "Machine \<Rightarrow> rat" where
  "cycleTimeSeconds machine = getCycleTimeInSeconds (m_cycleTimeValue machine) (m_cycleTimeUnit machine)"

definition runTimeSeconds :: "int \<Rightarrow> int \<Rightarrow> rat" where
  "runTimeSeconds plannedProductionTimeMs downtimeToday =
     of_int (runTimeMs plannedProductionTimeMs downtimeToday) / 1000"

definition theoreticalMaxProduction :: "int \<Rightarrow> int \<Rightarrow> Machine \<Rightarrow> rat" where
  "theoreticalMaxProduction plannedProductionTimeMs downtimeToday machine =
     (if cycleTimeSeconds machine > 0
      then runTimeSeconds plannedProductionTimeMs downtimeToday / cycleTimeSeconds machine
      else 0)"

definition totalProduced :: "Machine \<Rightarrow> int" where
  "totalProduced machine = m_productionCount machine + m_scrapCount machine"

definition performance :: "int \<Rightarrow> int \<Rightarrow> Machine \<Rightarrow> rat" where
  "performance plannedProductionTimeMs downtimeToday machine =
     (if theoreticalMaxProduction plannedProductionTimeMs downtimeToday machine > 0
      then (of_int (totalProduced machine)
              / theoreticalMaxProduction plannedProductionTimeMs downtimeToday machine) * 100
      else 0)"

definition quality :: "Machine \<Rightarrow> rat" where
  "quality machine =
     (if totalProduced machine > 0
      then (of_int (m_productionCount machine) / of_int (totalProduced machine)) * 100
      else 100)"

definition oee :: "int \<Rightarrow> int \<Rightarrow> Machine \<Rightarrow> rat" where
  "oee plannedProductionTimeMs downtimeToday machine =
     (availability plannedProductionTimeMs downtimeToday / 100)
       * (performance plannedProductionTimeMs downtimeToday machine / 100)
       * (quality machine / 100) * 100"

text \<open>The callback of \<^verbatim>\<open>machines.map\<close>.\<close>

definition machineMetrics ::
  "ActiveDowntimeFn \<Rightarrow> int \<Rightarrow> WorkHoursConfig \<Rightarrow> DowntimeInterval list \<Rightarrow> int \<Rightarrow> Machine
     \<Rightarrow> MachineMetrics" where
  "machineMetrics cad now workHours intervals plannedProductionTimeMs machine =
     (let downtimeToday = downtimeTodayMs cad now workHours machine in
      \<lparr>mm_machineId = m_id machine,
       mm_machineName = m_name machine,
       mm_totalDowntimeMs = downtimeToday,
       mm_failureCount = failureCount intervals machine,
       mm_mtbf = round1 (mtbfHours intervals machine),
       mm_mttr = Math_round (mttrMinutes intervals machine),
       mm_availability = clampPercent (round1 (availability plannedProductionTimeMs downtimeToday)),
       mm_performance =
         clampPercent (round1 (performance plannedProductionTimeMs downtimeToday machine)),
       mm_quality = clampPercent (round1 (quality machine)),
       mm_oee = clampPercent (round1 (oee plannedProductionTimeMs downtimeToday machine))\<rparr>)"

definition calculateFleetMetrics ::
  "ActiveDowntimeFn \<Rightarrow> ElapsedShiftFn \<Rightarrow> int \<Rightarrow> Machine list \<Rightarrow> MachineHistoryLog list
     \<Rightarrow> WorkHoursConfig \<Rightarrow> MachineMetrics list" where
  "calculateFleetMetrics cad gest now machines history workHours =
     (let intervals = getDowntimeIntervals cad now history machines workHours None;
          plannedProductionTimeMs = gest workHours now
      in map (machineMetrics cad now workHours intervals plannedProductionTimeMs) machines)"

subsection \<open>calculatePareto\<close>

text \<open>
  The body of \<^verbatim>\<open>intervals.forEach\<close>: the entry of the reason is created with zero count
  and duration when absent (at the end of the insertion order), then incremented in place.
\<close>

definition groupInterval ::
  "(string \<times> nat \<times> int) list \<Rightarrow> DowntimeInterval \<Rightarrow> (string \<times> nat \<times> int) list" where
  "groupInterval grouped i =
     (let entry = (case map_of grouped (i_reason i) of None \<Rightarrow> (0, 0) | Some g \<Rightarrow> g)
      in AList.update (i_reason i) (fst entry + 1, snd entry + i_duration i) grouped)"

definition groupIntervals :: "DowntimeInterval list \<Rightarrow> (string \<times> nat \<times> int) list" where
  "groupIntervals intervals = foldl groupInterval [] intervals"

definition totalDuration :: "(string \<times> nat \<times> int) list \<Rightarrow> int" where
  "totalDuration grouped = foldl (\<lambda>acc curr. acc + snd curr) 0 (map snd grouped)"

definition sortedGroups :: "(string \<times> nat \<times> int) list \<Rightarrow> ParetoItem list" where
  "sortedGroups grouped =
     sort_key (\<lambda>item. - p_durationMs item)
       (map (\<lambda>g. \<lparr>p_reason = fst g, p_count = fst (snd g), p_durationMs = snd (snd g),
                   p_accumulatedPercent = None\<rparr>) grouped)"

fun accumulatePercent :: "int \<Rightarrow> rat \<Rightarrow> ParetoItem list \<Rightarrow> ParetoItem list" where
  "accumulatePercent totalDur accumulated [] = []"
| "accumulatePercent totalDur accumulated (item # rest) =
     (let percent = (if totalDur > 0 then (of_int (p_durationMs item) / of_int totalDur) * 100 else 0);
          accumulated' = accumulated + percent
      in item\<lparr>p_accumulatedPercent := Some (Math_round accumulated')\<rparr>
           # accumulatePercent totalDur accumulated' rest)"

definition calculatePareto ::
  "ActiveDowntimeFn \<Rightarrow> int \<Rightarrow> Machine list \<Rightarrow> MachineHistoryLog list \<Rightarrow> WorkHoursConfig
     \<Rightarrow> ParetoItem list" where
  "calculatePareto cad now machines history workHours =
     (let intervals = getDowntimeIntervals cad now history machines workHours None;
          grouped = groupIntervals intervals
      in accumulatePercent (totalDuration grouped) 0 (sortedGroups grouped))"

subsection \<open>generateAIInsights\<close>

text \<open>
  The three template strings, each represented by a constructor that carries the values
  interpolated into it (the fleet average, shown with one decimal; the worst machine's name
  and OEE; the top reason).
\<close>

datatype Insight =
    OeeCritico rat
  | GargaloIdentificado string rat
  | CausaPrincipal string

definition avgOEE :: "MachineMetrics list \<Rightarrow> rat" where
  "avgOEE metrics =
     foldl (\<lambda>acc m. acc + mm_oee m) 0 metrics
       / (if length metrics = 0 then 1 else of_nat (length metrics))"

definition worstMachine :: "MachineMetrics list \<Rightarrow> MachineMetrics option" where
  "worstMachine metrics = (case sort_key mm_oee metrics of [] \<Rightarrow> None | w # _ \<Rightarrow> Some w)"

definition generateAIInsights :: "MachineMetrics list \<Rightarrow> ParetoItem list \<Rightarrow> Insight list" where
  "generateAIInsights metrics pareto =
     (if avgOEE metrics < 60 then [OeeCritico (avgOEE metrics)] else [])
     @ (case worstMachine metrics of
          None \<Rightarrow> []
        | Some w \<Rightarrow> if mm_oee w < 70 then [GargaloIdentificado (mm_machineName w) (mm_oee w)] else [])
     @ (case pareto of [] \<Rightarrow> [] | topReason # _ \<Rightarrow> [CausaPrincipal (p_reason topReason)])"

text \<open>The rule that emits a message: 1, 2 or 3 in the order of the source.\<close>

fun ruleOf :: "Insight \<Rightarrow> nat" where
  "ruleOf (OeeCritico _) = 1"
| "ruleOf (GargaloIdentificado _ _) = 2"
| "ruleOf (CausaPrincipal _) = 3"

subsection \<open>Facts established by the replay\<close>

text \<open>
  What the replay of a list of events has established about its state: a pushed interval has
  the raw difference of its two instants as duration and stems from a stop event and a
  later-processed run event of its machine; an open stoppage stems from a stop event.
\<close>

definition closedFrom :: "MachineHistoryLog list \<Rightarrow> DowntimeInterval \<Rightarrow> bool" where
  "closedFrom logs i =
     (i_duration i = i_end i - i_start i
      \<and> (\<exists>e1 \<in> set logs. \<exists>e2 \<in> set logs.
            l_newStatus e1 = STOPPED \<and> l_newStatus e2 = RUNNING
            \<and> l_machineId e1 = i_machineId i \<and> l_machineId e2 = i_machineId i
            \<and> l_timestamp e1 = i_start i \<and> l_timestamp e2 = i_end i
            \<and> i_reason i = reasonOrDefault (l_reason e1)))"

definition openFrom :: "MachineHistoryLog list \<Rightarrow> int \<Rightarrow> ActiveStop \<Rightarrow> bool" where
  "openFrom logs machineId open_stop =
     (\<exists>e \<in> set logs. l_newStatus e = STOPPED \<and> l_machineId e = machineId
        \<and> l_timestamp e = a_start open_stop \<and> a_reason open_stop = reasonOrDefault (l_reason e))"

text \<open>
  The replay as one machine sees it: \<open>machineView\<close> keeps the machine's own intervals and
  its own entry of the dictionary; \<open>replayOwn\<close> is the replay step on such a view, for an
  event of that machine.
\<close>

definition machineView ::
  "int \<Rightarrow> DowntimeInterval list \<times> (int \<rightharpoonup> ActiveStop)
     \<Rightarrow> DowntimeInterval list \<times> ActiveStop option" where
  "machineView m st = (filter (\<lambda>i. i_machineId i = m) (fst st), snd st m)"

definition replayOwn ::
  "int option \<Rightarrow> DowntimeInterval list \<times> ActiveStop option \<Rightarrow> MachineHistoryLog
     \<Rightarrow> DowntimeInterval list \<times> ActiveStop option" where
  "replayOwn filterStart v ev =
     machineView (l_machineId ev)
       (replayLog filterStart (fst v, Map.empty(l_machineId ev := snd v)) ev)"

subsection \<open>Concrete inputs\<close>

text \<open>
  Inputs on which the theorems below are instantiated: a shift clock that counts every
  instant as working time, a shift that has run for one hour, and the machine of the
  specification's worked example.
\<close>

definition rawClock :: ActiveDowntimeFn where
  "rawClock start workHours now = max 0 (now - start)"

definition oneHourShift :: ElapsedShiftFn where
  "oneHourShift workHours now = 3600000"

definition shiftConfig :: WorkHoursConfig where
  "shiftConfig = \<lparr>wh_enabled = True, wh_start = ''08:00'', wh_end = ''18:49''\<rparr>"

definition exampleMachine :: Machine where
  "exampleMachine =
     \<lparr>m_id = 1, m_name = ''Modeladora 1'', m_status = RUNNING, m_reason = None,
      m_lastUpdated = 0, m_accumulatedDowntimeMs = 0, m_productionCount = 100,
      m_scrapCount = 5, m_cycleTimeValue = 30, m_cycleTimeUnit = SECONDS\<rparr>"

definition stopEvent :: "int \<Rightarrow> int \<Rightarrow> string \<Rightarrow> MachineHistoryLog" where
  "stopEvent machineId ts r =
     \<lparr>l_machineId = machineId, l_previousStatus = RUNNING, l_newStatus = STOPPED,
      l_reason = Some r, l_timestamp = ts\<rparr>"

definition runEvent :: "int \<Rightarrow> int \<Rightarrow> MachineHistoryLog" where
  "runEvent machineId ts =
     \<lparr>l_machineId = machineId, l_previousStatus = STOPPED, l_newStatus = RUNNING,
      l_reason = None, l_timestamp = ts\<rparr>"

definition stoppedMachine :: Machine where
  "stoppedMachine =
     \<lparr>m_id = 2, m_name = ''Modeladora 2'', m_status = STOPPED, m_reason = Some ''Setup'',
      m_lastUpdated = 7000000, m_accumulatedDowntimeMs = 0, m_productionCount = 40,
      m_scrapCount = 0, m_cycleTimeValue = 1, m_cycleTimeUnit = MINUTES\<rparr>"

definition exampleHistory :: "MachineHistoryLog list" where
  "exampleHistory =
     [runEvent 1 3600000, stopEvent 2 7000000 ''Setup'', stopEvent 1 1800000 ''Falta de material'']"

definition doubleStopHistory :: "MachineHistoryLog list" where
  "doubleStopHistory =
     [runEvent 1 30, stopEvent 1 20 ''Setup'', stopEvent 2 15 ''Limpeza'',
      stopEvent 1 10 ''Falta de material'']"

section \<open>The shape of the metrics output\<close>

text \<open>
  Claim C8.  For every input the metrics array has exactly one entry per machine snapshot,
  in the order of the snapshots (the entry at each position carries the identifier and the
  name of the snapshot at that position); an empty collection of snapshots gives the empty
  array, not an error.
\<close>

theorem fleet_metrics_one_per_machine:
  "length (calculateFleetMetrics cad gest now machines history workHours) = length machines
   \<and> map mm_machineId (calculateFleetMetrics cad gest now machines history workHours)
       = map m_id machines
   \<and> map mm_machineName (calculateFleetMetrics cad gest now machines history workHours)
       = map m_name machines
   \<and> calculateFleetMetrics cad gest now [] history workHours = []"
  by (simp add: calculateFleetMetrics_def machineMetrics_def Let_def comp_def)

section \<open>Reconstruction of the downtime intervals\<close>

subsection \<open>The replay step, case by case\<close>

lemma replayLog_simps:
  "beforeFilter fs (l_timestamp ev) \<Longrightarrow> replayLog fs (ivs, act) ev = (ivs, act)"
  "\<not> beforeFilter fs (l_timestamp ev) \<Longrightarrow> l_newStatus ev = STOPPED \<Longrightarrow>
     replayLog fs (ivs, act) ev =
       (ivs, act(l_machineId ev \<mapsto>
          \<lparr>a_start = l_timestamp ev, a_reason = reasonOrDefault (l_reason ev)\<rparr>))"
  "\<not> beforeFilter fs (l_timestamp ev) \<Longrightarrow> l_newStatus ev = RUNNING \<Longrightarrow>
     act (l_machineId ev) = None \<Longrightarrow> replayLog fs (ivs, act) ev = (ivs, act)"
  "\<not> beforeFilter fs (l_timestamp ev) \<Longrightarrow> l_newStatus ev = RUNNING \<Longrightarrow>
     act (l_machineId ev) = Some open_stop \<Longrightarrow>
     replayLog fs (ivs, act) ev =
       (ivs @ [\<lparr>i_machineId = l_machineId ev, i_reason = a_reason open_stop,
                i_start = a_start open_stop, i_end = l_timestamp ev,
                i_duration = l_timestamp ev - a_start open_stop\<rparr>],
        act(l_machineId ev := None))"
  by (simp_all add: replayLog_def Let_def)

lemma closedFrom_mono: "closedFrom logs i \<Longrightarrow> set logs \<subseteq> set logs' \<Longrightarrow> closedFrom logs' i"
  unfolding closedFrom_def by blast

lemma openFrom_mono: "openFrom logs m s \<Longrightarrow> set logs \<subseteq> set logs' \<Longrightarrow> openFrom logs' m s"
  unfolding openFrom_def by blast

lemma replayLog_invariant:
  assumes ivs: "\<forall>i \<in> set ivs. closedFrom logs i"
    and act: "\<forall>m s. act m = Some s \<longrightarrow> openFrom logs m s"
    and res: "replayLog fs (ivs, act) ev = (ivs', act')"
  shows "(\<forall>i \<in> set ivs'. closedFrom (logs @ [ev]) i)
    \<and> (\<forall>m s. act' m = Some s \<longrightarrow> openFrom (logs @ [ev]) m s)"
proof -
  have sub: "set logs \<subseteq> set (logs @ [ev])" by auto
  have ivs1: "\<forall>i \<in> set ivs. closedFrom (logs @ [ev]) i"
    using ivs closedFrom_mono [OF _ sub] by blast
  have act1: "\<forall>m s. act m = Some s \<longrightarrow> openFrom (logs @ [ev]) m s"
    using act openFrom_mono [OF _ sub] by blast
  show ?thesis
  proof (cases "beforeFilter fs (l_timestamp ev)")
    case True
    with res ivs1 act1 show ?thesis by (simp add: replayLog_simps)
  next
    case nf: False
    show ?thesis
    proof (cases "l_newStatus ev")
      case STOPPED
      with nf res have r: "ivs' = ivs"
        "act' = act(l_machineId ev \<mapsto>
          \<lparr>a_start = l_timestamp ev, a_reason = reasonOrDefault (l_reason ev)\<rparr>)"
        by (simp_all add: replayLog_simps)
      have "openFrom (logs @ [ev]) (l_machineId ev)
          \<lparr>a_start = l_timestamp ev, a_reason = reasonOrDefault (l_reason ev)\<rparr>"
        using STOPPED by (simp add: openFrom_def)
      with ivs1 act1 r show ?thesis by simp
    next
      case RUNNING
      show ?thesis
      proof (cases "act (l_machineId ev)")
        case None
        with nf RUNNING res ivs1 act1 show ?thesis by (simp add: replayLog_simps)
      next
        case (Some open_stop)
        with nf RUNNING res have r: "ivs' = ivs @
            [\<lparr>i_machineId = l_machineId ev, i_reason = a_reason open_stop,
              i_start = a_start open_stop, i_end = l_timestamp ev,
              i_duration = l_timestamp ev - a_start open_stop\<rparr>]"
          "act' = act(l_machineId ev := None)"
          by (simp_all add: replayLog_simps)
        from act Some have "openFrom logs (l_machineId ev) open_stop" by blast
        then obtain e1 where e1: "e1 \<in> set logs" "l_newStatus e1 = STOPPED"
          "l_machineId e1 = l_machineId ev" "l_timestamp e1 = a_start open_stop"
          "a_reason open_stop = reasonOrDefault (l_reason e1)"
          unfolding openFrom_def by blast
        have "closedFrom (logs @ [ev])
            \<lparr>i_machineId = l_machineId ev, i_reason = a_reason open_stop,
              i_start = a_start open_stop, i_end = l_timestamp ev,
              i_duration = l_timestamp ev - a_start open_stop\<rparr>"
          unfolding closedFrom_def
          by (rule conjI, simp, rule bexI [of _ e1], rule bexI [of _ ev])
            (use e1 RUNNING in simp_all)
        with ivs1 act1 r show ?thesis by simp
      qed
    qed
  qed
qed

lemma replayLogs_invariant:
  "(\<forall>i \<in> set (fst (replayLogs fs logs)). closedFrom logs i)
   \<and> (\<forall>m s. snd (replayLogs fs logs) m = Some s \<longrightarrow> openFrom logs m s)"
proof (induction logs rule: rev_induct)
  case Nil
  show ?case by (simp add: replayLogs_def)
next
  case (snoc ev logs)
  obtain ivs act where s: "replayLogs fs logs = (ivs, act)" by (cases "replayLogs fs logs")
  obtain ivs' act' where s': "replayLog fs (ivs, act) ev = (ivs', act')"
    by (cases "replayLog fs (ivs, act) ev")
  have "replayLogs fs (logs @ [ev]) = (ivs', act')"
    using s s' by (simp add: replayLogs_def)
  moreover have "(\<forall>i \<in> set ivs'. closedFrom (logs @ [ev]) i)
    \<and> (\<forall>m s. act' m = Some s \<longrightarrow> openFrom (logs @ [ev]) m s)"
    using snoc.IH s s' by (intro replayLog_invariant [where ivs = ivs and act = act]) simp_all
  ultimately show ?case by simp
qed

lemma openInterval_simps:
  "m_status m \<noteq> STOPPED \<Longrightarrow> openInterval cad now workHours activeStops m = []"
  "activeStops (m_id m) = None \<Longrightarrow> openInterval cad now workHours activeStops m = []"
  "m_status m = STOPPED \<Longrightarrow> activeStops (m_id m) = Some s \<Longrightarrow>
     openInterval cad now workHours activeStops m =
       [\<lparr>i_machineId = m_id m, i_reason = a_reason s, i_start = a_start s,
         i_end = now, i_duration = cad (a_start s) workHours now\<rparr>]"
  by (simp_all add: openInterval_def)

lemma openInterval_iff:
  "i \<in> set (openInterval cad now workHours activeStops m) \<longleftrightarrow>
     m_status m = STOPPED
     \<and> (\<exists>s. activeStops (m_id m) = Some s
          \<and> i = \<lparr>i_machineId = m_id m, i_reason = a_reason s, i_start = a_start s,
                   i_end = now, i_duration = cad (a_start s) workHours now\<rparr>)"
proof (cases "m_status m = STOPPED")
  case False
  then show ?thesis by (simp add: openInterval_simps)
next
  case True
  show ?thesis
  proof (cases "activeStops (m_id m)")
    case None
    then show ?thesis by (simp add: openInterval_simps)
  next
    case (Some s)
    with True show ?thesis by (simp add: openInterval_simps)
  qed
qed

lemma openIntervals_iff:
  "i \<in> set (openIntervals cad now workHours activeStops machines) \<longleftrightarrow>
     (\<exists>m \<in> set machines. m_status m = STOPPED
        \<and> (\<exists>s. activeStops (m_id m) = Some s
             \<and> i = \<lparr>i_machineId = m_id m, i_reason = a_reason s, i_start = a_start s,
                      i_end = now, i_duration = cad (a_start s) workHours now\<rparr>))"
  by (simp add: openIntervals_def openInterval_iff)

text \<open>
  Claim C5.  The output of \<^verbatim>\<open>getDowntimeIntervals\<close> is the intervals closed during the
  replay followed by the synthesized ones.  Every closed interval has as duration the raw
  difference of its end and start instants, which are the timestamps of a run event and of a
  stop event of its machine in the log (no shift clipping).  Every synthesized interval
  belongs to a machine whose snapshot is stopped and that has an open stoppage after the
  replay; its start is the open instant, its end is \<open>now\<close> and its duration is the
  shift-clipped \<^verbatim>\<open>calculateActiveDowntime(start, workHours, now)\<close>; and every such machine
  gets such an interval.
\<close>

theorem closed_raw_open_clipped:
  assumes "replayed = replayLogs filterStart (sort_key l_timestamp history)"
  shows "getDowntimeIntervals cad now history machines workHours filterStart
      = fst replayed @ openIntervals cad now workHours (snd replayed) machines
    \<and> (\<forall>i \<in> set (fst replayed).
          i_duration i = i_end i - i_start i
          \<and> (\<exists>e1 \<in> set history. \<exists>e2 \<in> set history.
                l_newStatus e1 = STOPPED \<and> l_newStatus e2 = RUNNING
                \<and> l_machineId e1 = i_machineId i \<and> l_machineId e2 = i_machineId i
                \<and> l_timestamp e1 = i_start i \<and> l_timestamp e2 = i_end i))
    \<and> (\<forall>i \<in> set (openIntervals cad now workHours (snd replayed) machines).
          i_end i = now \<and> i_duration i = cad (i_start i) workHours now
          \<and> (\<exists>m \<in> set machines. m_status m = STOPPED \<and> m_id m = i_machineId i
                \<and> snd replayed (m_id m) = Some \<lparr>a_start = i_start i, a_reason = i_reason i\<rparr>)
          \<and> (\<exists>e \<in> set history. l_newStatus e = STOPPED \<and> l_machineId e = i_machineId i
                \<and> l_timestamp e = i_start i))
    \<and> (\<forall>m \<in> set machines. \<forall>s. m_status m = STOPPED \<and> snd replayed (m_id m) = Some s \<longrightarrow>
          \<lparr>i_machineId = m_id m, i_reason = a_reason s, i_start = a_start s, i_end = now,
           i_duration = cad (a_start s) workHours now\<rparr>
           \<in> set (getDowntimeIntervals cad now history machines workHours filterStart))"
proof -
  let ?logs = "sort_key l_timestamp history"
  have g: "getDowntimeIntervals cad now history machines workHours filterStart
      = fst replayed @ openIntervals cad now workHours (snd replayed) machines"
    by (simp add: getDowntimeIntervals_def Let_def assms)
  have inv: "(\<forall>i \<in> set (fst replayed). closedFrom ?logs i)
    \<and> (\<forall>m s. snd replayed m = Some s \<longrightarrow> openFrom ?logs m s)"
    unfolding assms by (rule replayLogs_invariant)
  have c: "i_duration i = i_end i - i_start i
      \<and> (\<exists>e1 \<in> set history. \<exists>e2 \<in> set history.
            l_newStatus e1 = STOPPED \<and> l_newStatus e2 = RUNNING
            \<and> l_machineId e1 = i_machineId i \<and> l_machineId e2 = i_machineId i
            \<and> l_timestamp e1 = i_start i \<and> l_timestamp e2 = i_end i)"
    if "i \<in> set (fst replayed)" for i
  proof -
    from inv that have "closedFrom ?logs i" by blast
    then show ?thesis unfolding closedFrom_def by (simp only: set_sort) blast
  qed
  have o: "i_end i = now \<and> i_duration i = cad (i_start i) workHours now
      \<and> (\<exists>m \<in> set machines. m_status m = STOPPED \<and> m_id m = i_machineId i
            \<and> snd replayed (m_id m) = Some \<lparr>a_start = i_start i, a_reason = i_reason i\<rparr>)
      \<and> (\<exists>e \<in> set history. l_newStatus e = STOPPED \<and> l_machineId e = i_machineId i
            \<and> l_timestamp e = i_start i)"
    if "i \<in> set (openIntervals cad now workHours (snd replayed) machines)" for i
  proof -
    from that obtain m s where m: "m \<in> set machines" "m_status m = STOPPED"
      "snd replayed (m_id m) = Some s"
      "i = \<lparr>i_machineId = m_id m, i_reason = a_reason s, i_start = a_start s,
             i_end = now, i_duration = cad (a_start s) workHours now\<rparr>"
      unfolding openIntervals_iff by blast
    from inv m(3) have "openFrom ?logs (m_id m) s" by blast
    then have e: "\<exists>e \<in> set history. l_newStatus e = STOPPED \<and> l_machineId e = m_id m
        \<and> l_timestamp e = a_start s"
      unfolding openFrom_def by (simp only: set_sort) blast
    have "\<exists>m' \<in> set machines. m_status m' = STOPPED \<and> m_id m' = m_id m
        \<and> snd replayed (m_id m') = Some \<lparr>a_start = a_start s, a_reason = a_reason s\<rparr>"
      using m(1,2,3) by (intro bexI [of _ m]) simp_all
    with e show ?thesis unfolding m(4) by simp
  qed
  have p: "\<lparr>i_machineId = m_id m, i_reason = a_reason s, i_start = a_start s, i_end = now,
         i_duration = cad (a_start s) workHours now\<rparr>
         \<in> set (getDowntimeIntervals cad now history machines workHours filterStart)"
    if "m \<in> set machines" "m_status m = STOPPED \<and> snd replayed (m_id m) = Some s" for m s
    unfolding g using that by (auto simp: openIntervals_iff)
  from g c o p show ?thesis by blast
qed

text \<open>
  An instance: machine 1 was stopped for half an hour and runs again, machine 2 is stopped
  since 7000000 and still stopped at 7200000.
\<close>

theorem closed_raw_open_clipped_witness:
  "\<lparr>i_machineId = 1, i_reason = ''Falta de material'', i_start = 1800000, i_end = 3600000,
     i_duration = 1800000\<rparr>
     \<in> set (fst (replayLogs None (sort_key l_timestamp exampleHistory)))
   \<and> i_duration \<lparr>i_machineId = 1, i_reason = ''Falta de material'', i_start = 1800000,
        i_end = 3600000, i_duration = 1800000\<rparr> = 3600000 - 1800000
   \<and> stoppedMachine \<in> set [exampleMachine, stoppedMachine]
   \<and> m_status stoppedMachine = STOPPED
   \<and> snd (replayLogs None (sort_key l_timestamp exampleHistory)) (m_id stoppedMachine)
       = Some \<lparr>a_start = 7000000, a_reason = ''Setup''\<rparr>
   \<and> \<lparr>i_machineId = 2, i_reason = ''Setup'', i_start = 7000000, i_end = 7200000,
       i_duration = rawClock 7000000 shiftConfig 7200000\<rparr>
       \<in> set (getDowntimeIntervals rawClock 7200000 exampleHistory
                [exampleMachine, stoppedMachine] shiftConfig None)"
proof -
  let ?i = "\<lparr>i_machineId = 1, i_reason = ''Falta de material'', i_start = 1800000,
     i_end = 3600000, i_duration = 1800000\<rparr>"
  let ?s = "\<lparr>a_start = 7000000, a_reason = ''Setup''\<rparr>"
  note t = closed_raw_open_clipped [OF refl, of rawClock 7200000 exampleHistory
      "[exampleMachine, stoppedMachine]" shiftConfig None]
  have h1: "?i \<in> set (fst (replayLogs None (sort_key l_timestamp exampleHistory)))"
    by code_simp
  have h2: "stoppedMachine \<in> set [exampleMachine, stoppedMachine]" by simp
  have h3: "m_status stoppedMachine = STOPPED" by code_simp
  have h4: "snd (replayLogs None (sort_key l_timestamp exampleHistory)) (m_id stoppedMachine)
       = Some ?s" by code_simp
  from t h1 have c1: "i_duration ?i = i_end ?i - i_start ?i" by blast
  from t h2 h3 h4 have c2: "\<lparr>i_machineId = m_id stoppedMachine, i_reason = a_reason ?s,
      i_start = a_start ?s, i_end = 7200000,
      i_duration = rawClock (a_start ?s) shiftConfig 7200000\<rparr>
       \<in> set (getDowntimeIntervals rawClock 7200000 exampleHistory
                [exampleMachine, stoppedMachine] shiftConfig None)" by blast
  have id: "m_id stoppedMachine = 2" by code_simp
  from c1 c2 h1 h2 h3 h4 show ?thesis by (simp add: id)
qed

subsection \<open>A second stop of a machine with an open stoppage\<close>

text \<open>An event of another machine neither reads nor writes the entry of machine \<open>m\<close>.\<close>

lemma replayLog_other_machine:
  assumes "l_machineId ev \<noteq> m"
  shows "replayLog fs (ivs, act(m := v)) ev
      = (fst (replayLog fs (ivs, act) ev), (snd (replayLog fs (ivs, act) ev))(m := v))"
proof (cases "beforeFilter fs (l_timestamp ev)")
  case True
  then show ?thesis by (simp add: replayLog_simps)
next
  case nf: False
  show ?thesis
  proof (cases "l_newStatus ev")
    case STOPPED
    with nf assms show ?thesis by (simp add: replayLog_simps fun_upd_twist)
  next
    case RUNNING
    show ?thesis
    proof (cases "act (l_machineId ev)")
      case None
      with nf RUNNING assms show ?thesis by (simp add: replayLog_simps)
    next
      case (Some open_stop)
      with nf RUNNING assms show ?thesis by (simp add: replayLog_simps fun_upd_twist)
    qed
  qed
qed

lemma replay_other_machines:
  assumes "\<forall>e \<in> set mid. l_machineId e \<noteq> m"
  shows "foldl (replayLog fs) (ivs, act(m := v)) mid
      = (fst (foldl (replayLog fs) (ivs, act) mid),
         (snd (foldl (replayLog fs) (ivs, act) mid))(m := v))"
  using assms
proof (induction mid arbitrary: ivs act)
  case Nil
  show ?case by simp
next
  case (Cons e mid)
  obtain ivs' act' where s: "replayLog fs (ivs, act) e = (ivs', act')"
    by (cases "replayLog fs (ivs, act) e")
  have step: "replayLog fs (ivs, act(m := v)) e = (ivs', act'(m := v))"
    using Cons.prems s by (simp add: replayLog_other_machine)
  have rest: "\<forall>e \<in> set mid. l_machineId e \<noteq> m" using Cons.prems by simp
  have "foldl (replayLog fs) (ivs, act(m := v)) (e # mid)
      = foldl (replayLog fs) (ivs', act'(m := v)) mid"
    by (simp only: foldl_Cons step)
  also have "\<dots> = (fst (foldl (replayLog fs) (ivs', act') mid),
         (snd (foldl (replayLog fs) (ivs', act') mid))(m := v))"
    by (rule Cons.IH [OF rest])
  also have "foldl (replayLog fs) (ivs', act') mid = foldl (replayLog fs) (ivs, act) (e # mid)"
    by (simp only: foldl_Cons s)
  finally show ?case .
qed

lemma beforeFilter_mono: "beforeFilter fs t2 \<Longrightarrow> t1 \<le> t2 \<Longrightarrow> beforeFilter fs t1"
  by (cases fs) (simp_all add: beforeFilter_def)

lemma double_stop_replay:
  assumes e1: "l_newStatus e1 = STOPPED" and e2: "l_newStatus e2 = STOPPED"
    and same: "l_machineId e1 = l_machineId e2"
    and mid: "\<forall>e \<in> set mid. l_machineId e \<noteq> l_machineId e2"
    and le: "l_timestamp e1 \<le> l_timestamp e2"
  shows "foldl (replayLog fs) st (e1 # mid @ e2 # post) = foldl (replayLog fs) st (mid @ e2 # post)"
proof -
  obtain ivs act where st: "st = (ivs, act)" by (cases st)
  let ?m = "l_machineId e2"
  obtain v where s1: "replayLog fs (ivs, act) e1 = (ivs, act(?m := v))"
  proof (cases "beforeFilter fs (l_timestamp e1)")
    case True
    then have "replayLog fs (ivs, act) e1 = (ivs, act(?m := act ?m))"
      by (simp add: replayLog_simps)
    then show ?thesis by (rule that)
  next
    case False
    then show ?thesis using e1 same that by (simp add: replayLog_simps)
  qed
  obtain ivs' act' where s2: "foldl (replayLog fs) (ivs, act) mid = (ivs', act')"
    by (cases "foldl (replayLog fs) (ivs, act) mid")
  have s3: "foldl (replayLog fs) (ivs, act(?m := v)) mid = (ivs', act'(?m := v))"
    using replay_other_machines [OF mid] s2 by simp
  have "replayLog fs (ivs', act'(?m := v)) e2 = replayLog fs (ivs', act') e2"
  proof (cases "beforeFilter fs (l_timestamp e2)")
    case True
    then have "beforeFilter fs (l_timestamp e1)" using le by (rule beforeFilter_mono)
    then have "replayLog fs (ivs, act) e1 = (ivs, act)" by (simp add: replayLog_simps)
    with s1 have "act(?m := v) = act" by simp
    then have "v = act ?m" by (metis fun_upd_same)
    moreover have "act' ?m = act ?m"
      using replay_other_machines [OF mid, of fs ivs act "act ?m"] s2
      by (simp, metis fun_upd_same)
    ultimately have "act'(?m := v) = act'" by (simp add: fun_upd_idem_iff)
    then show ?thesis by simp
  next
    case False
    then show ?thesis using e2 by (simp add: replayLog_simps)
  qed
  then show ?thesis by (simp add: st s1 s2 s3)
qed

text \<open>
  Claim C6.  The open stoppages are a dictionary keyed by machine, so a machine has at most
  one.  A stop event (not before the filter) leaves the intervals as they are and overwrites
  the machine's entry with its own instant and reason, whatever was open before; no branch
  of the step fails.  When the sorted log has two stop events of one machine with no event
  of that machine in between, the replay, and so the whole output, is that of the log
  without the earlier stop event: the earlier stoppage is discarded.
\<close>

theorem double_stop_discards_earlier:
  assumes "l_newStatus e1 = STOPPED" and "l_newStatus e2 = STOPPED"
    and "l_machineId e1 = l_machineId e2"
    and "\<forall>e \<in> set mid. l_machineId e \<noteq> l_machineId e2"
    and "sort_key l_timestamp history = pre @ e1 # mid @ e2 # post"
  shows "(\<forall>intervals activeStops. \<not> beforeFilter filterStart (l_timestamp e2) \<longrightarrow>
           replayLog filterStart (intervals, activeStops) e2
             = (intervals, activeStops(l_machineId e2 \<mapsto>
                  \<lparr>a_start = l_timestamp e2, a_reason = reasonOrDefault (l_reason e2)\<rparr>)))
    \<and> replayLogs filterStart (pre @ e1 # mid @ e2 # post)
        = replayLogs filterStart (pre @ mid @ e2 # post)
    \<and> getDowntimeIntervals cad now history machines workHours filterStart
        = getDowntimeIntervals cad now (pre @ mid @ e2 # post) machines workHours filterStart"
proof -
  have srt: "sorted (map l_timestamp (pre @ e1 # mid @ e2 # post))"
    using sorted_sort_key [of l_timestamp history] assms(5) by simp
  then have le: "l_timestamp e1 \<le> l_timestamp e2"
    by (simp add: sorted_append)
  have srt': "sorted (map l_timestamp (pre @ mid @ e2 # post))"
    using srt by (auto simp: sorted_append)
  have a: "\<forall>intervals activeStops. \<not> beforeFilter filterStart (l_timestamp e2) \<longrightarrow>
           replayLog filterStart (intervals, activeStops) e2
             = (intervals, activeStops(l_machineId e2 \<mapsto>
                  \<lparr>a_start = l_timestamp e2, a_reason = reasonOrDefault (l_reason e2)\<rparr>))"
    using assms(2) by (simp add: replayLog_simps)
  have b: "replayLogs filterStart (pre @ e1 # mid @ e2 # post)
        = replayLogs filterStart (pre @ mid @ e2 # post)"
    unfolding replayLogs_def foldl_append
    using double_stop_replay [OF assms(1,2,3,4) le] by simp
  have c: "sort_key l_timestamp (pre @ mid @ e2 # post) = pre @ mid @ e2 # post"
    using srt' by (rule sort_key_id_if_sorted)
  have "getDowntimeIntervals cad now history machines workHours filterStart
        = getDowntimeIntervals cad now (pre @ mid @ e2 # post) machines workHours filterStart"
    unfolding getDowntimeIntervals_def Let_def assms(5) c b ..
  with a b show ?thesis by blast
qed

text \<open>
  An instance: machine 1 stops at 10 and again at 20 with only an event of machine 2 in
  between, and runs at 30; its one interval starts at 20 with the second reason.
\<close>

theorem double_stop_discards_earlier_witness:
  "sort_key l_timestamp doubleStopHistory
     = [] @ stopEvent 1 10 ''Falta de material'' # [stopEvent 2 15 ''Limpeza'']
          @ stopEvent 1 20 ''Setup'' # [runEvent 1 30]
   \<and> getDowntimeIntervals rawClock 100 doubleStopHistory [exampleMachine, stoppedMachine]
       shiftConfig None
     = getDowntimeIntervals rawClock 100
         ([] @ [stopEvent 2 15 ''Limpeza''] @ stopEvent 1 20 ''Setup'' # [runEvent 1 30])
         [exampleMachine, stoppedMachine] shiftConfig None
   \<and> getDowntimeIntervals rawClock 100 doubleStopHistory [exampleMachine, stoppedMachine]
       shiftConfig None
     = [\<lparr>i_machineId = 1, i_reason = ''Setup'', i_start = 20, i_end = 30, i_duration = 10\<rparr>,
        \<lparr>i_machineId = 2, i_reason = ''Limpeza'', i_start = 15, i_end = 100, i_duration = 85\<rparr>]"
proof -
  have h1: "l_newStatus (stopEvent 1 10 ''Falta de material'') = STOPPED"
    and h2: "l_newStatus (stopEvent 1 20 ''Setup'') = STOPPED"
    and h3: "l_machineId (stopEvent 1 10 ''Falta de material'') = l_machineId (stopEvent 1 20 ''Setup'')"
    by (simp_all add: stopEvent_def)
  have h4: "\<forall>e \<in> set [stopEvent 2 15 ''Limpeza'']. l_machineId e \<noteq> l_machineId (stopEvent 1 20 ''Setup'')"
    by (simp add: stopEvent_def)
  have h5: "sort_key l_timestamp doubleStopHistory
     = [] @ stopEvent 1 10 ''Falta de material'' # [stopEvent 2 15 ''Limpeza'']
          @ stopEvent 1 20 ''Setup'' # [runEvent 1 30]"
    by code_simp
  have v: "getDowntimeIntervals rawClock 100 doubleStopHistory [exampleMachine, stoppedMachine]
       shiftConfig None
     = [\<lparr>i_machineId = 1, i_reason = ''Setup'', i_start = 20, i_end = 30, i_duration = 10\<rparr>,
        \<lparr>i_machineId = 2, i_reason = ''Limpeza'', i_start = 15, i_end = 100, i_duration = 85\<rparr>]"
    by code_simp
  note t = double_stop_discards_earlier [OF h1 h2 h3 h4 h5, of None rawClock 100
      "[exampleMachine, stoppedMachine]" shiftConfig]
  from t h5 v show ?thesis by blast
qed

subsection \<open>Independence of the storage order\<close>

text \<open>
  Claim C4, as stated, fails when distinct events share a timestamp: the sort is stable, so
  events of equal timestamp are replayed in storage order.  A stop and a run event of
  machine 1, both at instant 10, give one interval of duration 0 when the stop is stored
  first and no interval when the run is stored first (the machine's snapshot is running, so
  no interval is synthesized).
\<close>

theorem equal_timestamps_depend_on_order:
  "mset [runEvent 1 10, stopEvent 1 10 ''Setup''] = mset [stopEvent 1 10 ''Setup'', runEvent 1 10]
   \<and> sorted (map l_timestamp [stopEvent 1 10 ''Setup'', runEvent 1 10])
   \<and> stopEvent 1 10 ''Setup'' \<noteq> runEvent 1 10
   \<and> getDowntimeIntervals rawClock 100 [stopEvent 1 10 ''Setup'', runEvent 1 10]
        [exampleMachine] shiftConfig None
      = [\<lparr>i_machineId = 1, i_reason = ''Setup'', i_start = 10, i_end = 10, i_duration = 0\<rparr>]
   \<and> getDowntimeIntervals rawClock 100 [runEvent 1 10, stopEvent 1 10 ''Setup'']
        [exampleMachine] shiftConfig None = []
   \<and> set (getDowntimeIntervals rawClock 100 [stopEvent 1 10 ''Setup'', runEvent 1 10]
        [exampleMachine] shiftConfig None)
      \<noteq> set (getDowntimeIntervals rawClock 100 [runEvent 1 10, stopEvent 1 10 ''Setup'']
        [exampleMachine] shiftConfig None)"
proof -
  have a: "mset [runEvent 1 10, stopEvent 1 10 ''Setup'']
      = mset [stopEvent 1 10 ''Setup'', runEvent 1 10]"
    by (simp add: add.commute)
  have b: "sorted (map l_timestamp [stopEvent 1 10 ''Setup'', runEvent 1 10])"
    by (simp add: stopEvent_def runEvent_def)
  have c: "stopEvent 1 10 ''Setup'' \<noteq> runEvent 1 10"
    by (simp add: stopEvent_def runEvent_def)
  have d: "getDowntimeIntervals rawClock 100 [stopEvent 1 10 ''Setup'', runEvent 1 10]
        [exampleMachine] shiftConfig None
      = [\<lparr>i_machineId = 1, i_reason = ''Setup'', i_start = 10, i_end = 10, i_duration = 0\<rparr>]"
    by code_simp
  have e: "getDowntimeIntervals rawClock 100 [runEvent 1 10, stopEvent 1 10 ''Setup'']
        [exampleMachine] shiftConfig None = []"
    by code_simp
  show ?thesis unfolding d e using a b c by simp
qed

lemma machineView_own:
  assumes "l_machineId ev = m"
  shows "machineView m (replayLog fs (ivs, act) ev) = replayOwn fs (machineView m (ivs, act)) ev"
proof (cases "beforeFilter fs (l_timestamp ev)")
  case True
  then show ?thesis using assms by (simp add: replayOwn_def machineView_def replayLog_simps)
next
  case nf: False
  show ?thesis
  proof (cases "l_newStatus ev")
    case STOPPED
    with nf assms show ?thesis by (simp add: replayOwn_def machineView_def replayLog_simps)
  next
    case RUNNING
    show ?thesis
    proof (cases "act m")
      case None
      with nf RUNNING assms show ?thesis
        by (simp add: replayOwn_def machineView_def replayLog_simps)
    next
      case (Some open_stop)
      with nf RUNNING assms show ?thesis
        by (simp add: replayOwn_def machineView_def replayLog_simps)
    qed
  qed
qed

lemma machineView_other:
  assumes "l_machineId ev \<noteq> m"
  shows "machineView m (replayLog fs (ivs, act) ev) = machineView m (ivs, act)"
proof (cases "beforeFilter fs (l_timestamp ev)")
  case True
  then show ?thesis by (simp add: replayLog_simps)
next
  case nf: False
  show ?thesis
  proof (cases "l_newStatus ev")
    case STOPPED
    with nf assms show ?thesis by (simp add: machineView_def replayLog_simps)
  next
    case RUNNING
    show ?thesis
    proof (cases "act (l_machineId ev)")
      case None
      with nf RUNNING show ?thesis by (simp add: replayLog_simps)
    next
      case (Some open_stop)
      with nf RUNNING assms show ?thesis by (simp add: machineView_def replayLog_simps)
    qed
  qed
qed

lemma machineView_replay:
  "machineView m (foldl (replayLog fs) st logs)
     = foldl (replayOwn fs) (machineView m st) (filter (\<lambda>e. l_machineId e = m) logs)"
proof (induction logs arbitrary: st)
  case Nil
  show ?case by simp
next
  case (Cons ev logs)
  obtain ivs act where st: "st = (ivs, act)" by (cases st)
  show ?case
  proof (cases "l_machineId ev = m")
    case True
    then show ?thesis using Cons [of "replayLog fs st ev"] machineView_own [OF True, of fs ivs act]
      by (simp add: st)
  next
    case False
    then show ?thesis using Cons [of "replayLog fs st ev"] machineView_other [OF False, of fs ivs act]
      by (simp add: st)
  qed
qed

lemma views_determine:
  fixes st st' :: "DowntimeInterval list \<times> (int \<rightharpoonup> ActiveStop)"
  assumes "\<And>m. machineView m st = machineView m st'"
  shows "mset (fst st) = mset (fst st') \<and> snd st = snd st'"
proof
  show "mset (fst st) = mset (fst st')"
  proof (rule multiset_eqI)
    fix i :: DowntimeInterval
    have "filter (\<lambda>j. i_machineId j = i_machineId i) (fst st)
        = filter (\<lambda>j. i_machineId j = i_machineId i) (fst st')"
      using assms [of "i_machineId i"] by (simp add: machineView_def)
    then have "count (mset (filter (\<lambda>j. i_machineId j = i_machineId i) (fst st))) i
        = count (mset (filter (\<lambda>j. i_machineId j = i_machineId i) (fst st'))) i"
      by simp
    then show "count (mset (fst st)) i = count (mset (fst st')) i"
      by (simp add: mset_filter)
  qed
  show "snd st = snd st'"
  proof
    fix m
    show "snd st m = snd st' m" using assms [of m] by (simp add: machineView_def)
  qed
qed

text \<open>A stable sort of two permutations of a list on which the key is injective.\<close>

lemma sort_key_permutation:
  assumes perm: "mset xs = mset ys"
    and inj: "\<forall>a \<in> set xs. \<forall>b \<in> set xs. f a = f b \<longrightarrow> a = b"
  shows "sort_key f xs = sort_key f ys"
proof (rule properties_for_sort_key)
  show "mset (sort_key f ys) = mset xs" using perm by simp
  show "sorted (map f (sort_key f ys))" by simp
  fix k assume "k \<in> set (sort_key f ys)"
  then have k: "k \<in> set xs" using perm by (simp add: mset_eq_setD [OF perm])
  have sets: "set ys = set xs" using perm by (rule mset_eq_setD [symmetric])
  have "filter (\<lambda>x. f k = f x) (sort_key f ys) = filter (\<lambda>x. f k = f x) ys"
    using sort_key_stable [of f "f k" ys] by (simp add: eq_commute)
  also have "\<dots> = filter ((=) k) ys"
    using inj k sets by (intro filter_cong) auto
  also have "\<dots> = replicate (count (mset ys) k) k"
    by (rule replicate_count_mset_eq_filter_eq [symmetric])
  also have "\<dots> = replicate (count (mset xs) k) k" using perm by simp
  also have "\<dots> = filter ((=) k) xs"
    by (rule replicate_count_mset_eq_filter_eq)
  also have "\<dots> = filter (\<lambda>x. f k = f x) xs"
    using inj k by (intro filter_cong) auto
  finally show "filter (\<lambda>x. f k = f x) (sort_key f ys) = filter (\<lambda>x. f k = f x) xs" .
qed

text \<open>
  Claim C4, amended.  When no two distinct events of the same machine share a timestamp,
  the downtime intervals reconstructed from any two permutations of the event log (in
  particular the pre-sorted and a shuffled one) are the same multiset, hence the same set.
\<close>

theorem reconstruction_order_independent:
  assumes "mset shuffled = mset history"
    and "\<forall>e1 \<in> set history. \<forall>e2 \<in> set history.
           l_machineId e1 = l_machineId e2 \<and> l_timestamp e1 = l_timestamp e2 \<longrightarrow> e1 = e2"
  shows "mset (getDowntimeIntervals cad now shuffled machines workHours filterStart)
      = mset (getDowntimeIntervals cad now history machines workHours filterStart)
    \<and> set (getDowntimeIntervals cad now shuffled machines workHours filterStart)
      = set (getDowntimeIntervals cad now history machines workHours filterStart)"
proof -
  let ?st = "replayLogs filterStart (sort_key l_timestamp shuffled)"
  let ?st' = "replayLogs filterStart (sort_key l_timestamp history)"
  have view: "machineView m ?st = machineView m ?st'" for m
  proof -
    let ?own = "\<lambda>e. l_machineId e = m"
    have p: "mset (filter ?own shuffled) = mset (filter ?own history)"
      using assms(1) by simp
    have i: "\<forall>a \<in> set (filter ?own shuffled). \<forall>b \<in> set (filter ?own shuffled).
        l_timestamp a = l_timestamp b \<longrightarrow> a = b"
      using assms(2) mset_eq_setD [OF assms(1)] by auto
    have "filter ?own (sort_key l_timestamp shuffled) = filter ?own (sort_key l_timestamp history)"
      unfolding filter_sort using p i by (rule sort_key_permutation)
    then show ?thesis
      unfolding replayLogs_def machineView_replay by simp
  qed
  have "mset (fst ?st) = mset (fst ?st') \<and> snd ?st = snd ?st'"
    using view by (rule views_determine)
  then have "mset (getDowntimeIntervals cad now shuffled machines workHours filterStart)
      = mset (getDowntimeIntervals cad now history machines workHours filterStart)"
    by (simp add: getDowntimeIntervals_def Let_def)
  then show ?thesis using mset_eq_setD by blast
qed

text \<open>The amended claim at a permutation of \<open>exampleHistory\<close>.\<close>

theorem reconstruction_order_independent_witness:
  "mset [stopEvent 1 1800000 ''Falta de material'', runEvent 1 3600000, stopEvent 2 7000000 ''Setup'']
     = mset exampleHistory
   \<and> set (getDowntimeIntervals rawClock 7200000
        [stopEvent 1 1800000 ''Falta de material'', runEvent 1 3600000, stopEvent 2 7000000 ''Setup'']
        [exampleMachine, stoppedMachine] shiftConfig None)
     = set (getDowntimeIntervals rawClock 7200000 exampleHistory
        [exampleMachine, stoppedMachine] shiftConfig None)"
proof -
  have p: "mset [stopEvent 1 1800000 ''Falta de material'', runEvent 1 3600000,
        stopEvent 2 7000000 ''Setup''] = mset exampleHistory"
    by (simp add: exampleHistory_def)
  have i: "\<forall>e1 \<in> set exampleHistory. \<forall>e2 \<in> set exampleHistory.
           l_machineId e1 = l_machineId e2 \<and> l_timestamp e1 = l_timestamp e2 \<longrightarrow> e1 = e2"
    by (simp add: exampleHistory_def stopEvent_def runEvent_def)
  from reconstruction_order_independent [OF p i, of rawClock 7200000
      "[exampleMachine, stoppedMachine]" shiftConfig None] p
  show ?thesis by blast
qed

section \<open>The worked example of the specification\<close>

text \<open>
  Claim C7.  A machine that is running, with a cycle time of 30 seconds, one hour
  (3600000 ms) of shift elapsed today, no accumulated downtime, 100 good units and 5 scrap
  units has a theoretical maximum production of 120 units, and its metrics entry reports
  Availability 100, Performance 87.5, Quality round(100 * 100 / 105, 1) = 95.2 and OEE 83.3.
\<close>

theorem example_machine_metrics:
  assumes "i < length machines" and "machines ! i = machine"
    and "m_status machine = RUNNING"
    and "m_cycleTimeValue machine = 30" and "m_cycleTimeUnit machine = SECONDS"
    and "gest workHours now = 3600000"
    and "m_accumulatedDowntimeMs machine = 0"
    and "m_productionCount machine = 100" and "m_scrapCount machine = 5"
  shows "theoreticalMaxProduction (gest workHours now)
           (downtimeTodayMs cad now workHours machine) machine = 120
    \<and> mm_availability (calculateFleetMetrics cad gest now machines history workHours ! i) = 100
    \<and> mm_performance (calculateFleetMetrics cad gest now machines history workHours ! i) = 875 / 10
    \<and> mm_quality (calculateFleetMetrics cad gest now machines history workHours ! i)
          = round1 (100 * 100 / 105)
    \<and> mm_quality (calculateFleetMetrics cad gest now machines history workHours ! i) = 952 / 10
    \<and> mm_oee (calculateFleetMetrics cad gest now machines history workHours ! i) = 833 / 10"
proof -
  have d: "downtimeTodayMs cad now workHours machine = 0"
    using assms by (simp add: downtimeTodayMs_def currentStopDuration_def)
  have t: "theoreticalMaxProduction 3600000 0 machine = 120"
    using assms by (simp add: theoreticalMaxProduction_def cycleTimeSeconds_def
        getCycleTimeInSeconds_def runTimeSeconds_def runTimeMs_def)
  have a: "availability 3600000 0 = 100"
    by (simp add: availability_def runTimeMs_def)
  have p: "performance 3600000 0 machine = 875 / 10"
    using assms by (simp add: performance_def t totalProduced_def)
  have q: "quality machine = 100 * 100 / 105"
    using assms by (simp add: quality_def totalProduced_def)
  have o: "oee 3600000 0 machine = 250 / 3"
    by (simp add: oee_def a p q)
  have r1: "round1 (100 :: rat) = 100" by code_simp
  have r2: "round1 (875 / 10) = 875 / 10" by code_simp
  have r3: "round1 (100 * 100 / 105) = 952 / 10" by code_simp
  have r4: "round1 (250 / 3) = 833 / 10" by code_simp
  have c1: "clampPercent 100 = 100" by code_simp
  have c2: "clampPercent (875 / 10) = 875 / 10" by code_simp
  have c3: "clampPercent (952 / 10) = 952 / 10" by code_simp
  have c4: "clampPercent (833 / 10) = 833 / 10" by code_simp
  have m: "calculateFleetMetrics cad gest now machines history workHours ! i
      = machineMetrics cad now workHours
          (getDowntimeIntervals cad now history machines workHours None) 3600000 machine"
    using assms by (simp add: calculateFleetMetrics_def Let_def)
  show ?thesis
    unfolding m assms(6) d
    by (simp only: machineMetrics_def Let_def d t a p q o r1 r2 r3 r4 c1 c2 c3 c4
        MachineMetrics.simps simp_thms)
qed

text \<open>The example at the concrete machine \<open>exampleMachine\<close>, alone in the fleet.\<close>

theorem example_machine_metrics_witness:
  "theoreticalMaxProduction (oneHourShift shiftConfig 7200000)
       (downtimeTodayMs rawClock 7200000 shiftConfig exampleMachine) exampleMachine = 120
   \<and> mm_availability
        (calculateFleetMetrics rawClock oneHourShift 7200000 [exampleMachine] [] shiftConfig ! 0) = 100
   \<and> mm_performance
        (calculateFleetMetrics rawClock oneHourShift 7200000 [exampleMachine] [] shiftConfig ! 0) = 875 / 10
   \<and> mm_quality
        (calculateFleetMetrics rawClock oneHourShift 7200000 [exampleMachine] [] shiftConfig ! 0) = 952 / 10
   \<and> mm_oee
        (calculateFleetMetrics rawClock oneHourShift 7200000 [exampleMachine] [] shiftConfig ! 0) = 833 / 10"
  using example_machine_metrics [of 0 "[exampleMachine]" exampleMachine oneHourShift shiftConfig
      7200000 rawClock "[]"]
  by (simp add: exampleMachine_def oneHourShift_def)

section \<open>The historical window of MTBF and MTTR\<close>

text \<open>
  Claim C1.  The claim has the failure count and the historical downtime restricted to the
  last 30 days before \<open>now\<close>.  \<^verbatim>\<open>calculateFleetMetrics\<close> calls \<^verbatim>\<open>getDowntimeIntervals\<close>
  without its \<^verbatim>\<open>filterStart\<close> argument, so no interval is excluded: with \<open>now\<close> at day 60, a
  one-hour stoppage that ended in the first hour of day 0 (more than 30 days before \<open>now\<close>)
  is still counted as one failure, with MTTR 60 minutes and MTBF 719 hours, where the
  claim gives 0 failures, MTTR 0 and MTBF 720.  A stoppage of 31 days, most of it before the
  window, gives the negative MTBF of -24 hours.
\<close>

theorem old_intervals_still_counted:
  "3600000 < 5184000000 - THIRTY_DAYS_MS
   \<and> mm_failureCount (hd (calculateFleetMetrics rawClock oneHourShift 5184000000 [exampleMachine]
        [stopEvent 1 0 ''Setup'', runEvent 1 3600000] shiftConfig)) = 1
   \<and> mm_mttr (hd (calculateFleetMetrics rawClock oneHourShift 5184000000 [exampleMachine]
        [stopEvent 1 0 ''Setup'', runEvent 1 3600000] shiftConfig)) = 60
   \<and> mm_mtbf (hd (calculateFleetMetrics rawClock oneHourShift 5184000000 [exampleMachine]
        [stopEvent 1 0 ''Setup'', runEvent 1 3600000] shiftConfig)) = 719
   \<and> mm_mtbf (hd (calculateFleetMetrics rawClock oneHourShift 5184000000 [exampleMachine]
        [stopEvent 1 0 ''Setup'', runEvent 1 2678400000] shiftConfig)) = - 24"
  by code_simp

section \<open>OEE and the reported factors\<close>

text \<open>
  Claim C2, as stated, fails: the reported OEE is rounded from the product of the unrounded
  factors, not from the product of the reported (rounded) ones.  A running machine with one
  hour of shift, a 30 second cycle, 64 good and 32 scrap units has Availability 100,
  Performance 80 and Quality 200/3, all inside [0, 100], so that no clamp changes a value;
  it reports Quality 66.7 and OEE 53.3, while the product of the reported percentages
  rounds to 53.4.
\<close>

theorem oee_not_product_of_reported:
  "availability 3600000 0 = 100
   \<and> performance 3600000 0 (exampleMachine\<lparr>m_productionCount := 64, m_scrapCount := 32\<rparr>) = 80
   \<and> quality (exampleMachine\<lparr>m_productionCount := 64, m_scrapCount := 32\<rparr>) = 200 / 3
   \<and> mm_availability (hd (calculateFleetMetrics rawClock oneHourShift 7200000
        [exampleMachine\<lparr>m_productionCount := 64, m_scrapCount := 32\<rparr>] [] shiftConfig)) = 100
   \<and> mm_performance (hd (calculateFleetMetrics rawClock oneHourShift 7200000
        [exampleMachine\<lparr>m_productionCount := 64, m_scrapCount := 32\<rparr>] [] shiftConfig)) = 80
   \<and> mm_quality (hd (calculateFleetMetrics rawClock oneHourShift 7200000
        [exampleMachine\<lparr>m_productionCount := 64, m_scrapCount := 32\<rparr>] [] shiftConfig)) = 667 / 10
   \<and> mm_oee (hd (calculateFleetMetrics rawClock oneHourShift 7200000
        [exampleMachine\<lparr>m_productionCount := 64, m_scrapCount := 32\<rparr>] [] shiftConfig)) = 533 / 10
   \<and> round1 ((100 / 100) * (80 / 100) * ((667 / 10) / 100) * 100) = 534 / 10
   \<and> mm_oee (hd (calculateFleetMetrics rawClock oneHourShift 7200000
        [exampleMachine\<lparr>m_productionCount := 64, m_scrapCount := 32\<rparr>] [] shiftConfig))
      \<noteq> round1
          ((mm_availability (hd (calculateFleetMetrics rawClock oneHourShift 7200000
              [exampleMachine\<lparr>m_productionCount := 64, m_scrapCount := 32\<rparr>] [] shiftConfig)) / 100)
           * (mm_performance (hd (calculateFleetMetrics rawClock oneHourShift 7200000
              [exampleMachine\<lparr>m_productionCount := 64, m_scrapCount := 32\<rparr>] [] shiftConfig)) / 100)
           * (mm_quality (hd (calculateFleetMetrics rawClock oneHourShift 7200000
              [exampleMachine\<lparr>m_productionCount := 64, m_scrapCount := 32\<rparr>] [] shiftConfig)) / 100)
           * 100)"
  by code_simp

subsection \<open>Rounding to one decimal\<close>

lemma Math_round_close: "\<bar>of_int (Math_round y) - y\<bar> \<le> 1 / 2"
  unfolding Math_round_def by linarith

lemma round1_close: "\<bar>round1 x - x\<bar> \<le> 1 / 20"
proof -
  have "\<bar>of_int (Math_round (x * 10)) - x * 10\<bar> \<le> 1 / 2" by (rule Math_round_close)
  then show ?thesis unfolding round1_def by (simp add: field_simps abs_if split: if_splits)
qed

lemma round1_mono: "x \<le> y \<Longrightarrow> round1 x \<le> round1 y"
  unfolding round1_def Math_round_def by (simp add: floor_mono divide_right_mono)

lemma round1_0: "round1 0 = 0" by code_simp
lemma round1_100: "round1 100 = 100" by code_simp

lemma round1_range: "0 \<le> x \<Longrightarrow> x \<le> 100 \<Longrightarrow> 0 \<le> round1 x \<and> round1 x \<le> 100"
  using round1_mono [of 0 x] round1_mono [of x 100] by (simp add: round1_0 round1_100)

lemma clampPercent_id: "0 \<le> x \<Longrightarrow> x \<le> 100 \<Longrightarrow> clampPercent x = x"
  by (simp add: clampPercent_def)

lemma product_close:
  fixes a p q A P Q e :: rat
  assumes "0 \<le> a" "a \<le> 100" "0 \<le> p" "p \<le> 100" "0 \<le> q" "q \<le> 100"
    and "0 \<le> A" "A \<le> 100" "0 \<le> P" "P \<le> 100" "0 \<le> Q" "Q \<le> 100"
    and "\<bar>A - a\<bar> \<le> e" "\<bar>P - p\<bar> \<le> e" "\<bar>Q - q\<bar> \<le> e"
  shows "\<bar>A * P * Q - a * p * q\<bar> \<le> 3 * e * 10000"
proof -
  have e0: "0 \<le> e" using assms(13) by linarith
  have s: "A * P * Q - a * p * q = (A - a) * (P * Q) + (P - p) * (a * Q) + (Q - q) * (a * p)"
    by (simp add: algebra_simps)
  have pq: "0 \<le> P * Q \<and> P * Q \<le> 100 * 100"
    using assms mult_mono [of P 100 Q 100] by simp
  have aq: "0 \<le> a * Q \<and> a * Q \<le> 100 * 100"
    using assms mult_mono [of a 100 Q 100] by simp
  have ap: "0 \<le> a * p \<and> a * p \<le> 100 * 100"
    using assms mult_mono [of a 100 p 100] by simp
  have t1: "\<bar>(A - a) * (P * Q)\<bar> \<le> e * (100 * 100)"
  proof -
    have "\<bar>(A - a) * (P * Q)\<bar> = \<bar>A - a\<bar> * (P * Q)"
      using pq abs_mult_pos [of "P * Q" "A - a"] by simp
    also have "\<dots> \<le> e * (100 * 100)"
      by (rule mult_mono) (use assms(13) pq e0 in auto)
    finally show ?thesis .
  qed
  have t2: "\<bar>(P - p) * (a * Q)\<bar> \<le> e * (100 * 100)"
  proof -
    have "\<bar>(P - p) * (a * Q)\<bar> = \<bar>P - p\<bar> * (a * Q)"
      using aq abs_mult_pos [of "a * Q" "P - p"] by simp
    also have "\<dots> \<le> e * (100 * 100)"
      by (rule mult_mono) (use assms(14) aq e0 in auto)
    finally show ?thesis .
  qed
  have t3: "\<bar>(Q - q) * (a * p)\<bar> \<le> e * (100 * 100)"
  proof -
    have "\<bar>(Q - q) * (a * p)\<bar> = \<bar>Q - q\<bar> * (a * p)"
      using ap abs_mult_pos [of "a * p" "Q - q"] by simp
    also have "\<dots> \<le> e * (100 * 100)"
      by (rule mult_mono) (use assms(15) ap e0 in auto)
    finally show ?thesis .
  qed
  show ?thesis unfolding s using t1 t2 t3 by linarith
qed

lemma tenths_close:
  assumes "\<bar>of_int k / 10 - of_int l / (10 :: rat)\<bar> \<le> 1 / 4"
  shows "\<bar>of_int k / 10 - of_int l / (10 :: rat)\<bar> \<le> 2 / 10"
proof -
  have "\<bar>(of_int (k - l) :: rat)\<bar> \<le> 5 / 2" using assms by (simp add: field_simps abs_if split: if_splits)
  then have "\<bar>k - l\<bar> \<le> 2" by (simp add: abs_if split: if_splits)
  then have "\<bar>(of_int (k - l) :: rat)\<bar> \<le> 2" by (metis of_int_abs of_int_le_iff of_int_numeral)
  then show ?thesis by (simp add: field_simps abs_if split: if_splits)
qed

lemma oee_close:
  fixes a p q :: rat
  assumes "0 \<le> a" "a \<le> 100" "0 \<le> p" "p \<le> 100" "0 \<le> q" "q \<le> 100"
  shows "\<bar>round1 ((a / 100) * (p / 100) * (q / 100) * 100)
          - round1 ((round1 a / 100) * (round1 p / 100) * (round1 q / 100) * 100)\<bar> \<le> 2 / 10"
proof -
  define A P Q where "A = round1 a" and "P = round1 p" and "Q = round1 q"
  have r: "0 \<le> A" "A \<le> 100" "0 \<le> P" "P \<le> 100" "0 \<le> Q" "Q \<le> 100"
    using assms round1_range unfolding A_def P_def Q_def by auto
  have c: "\<bar>A - a\<bar> \<le> 1 / 20" "\<bar>P - p\<bar> \<le> 1 / 20" "\<bar>Q - q\<bar> \<le> 1 / 20"
    unfolding A_def P_def Q_def by (rule round1_close)+
  have "\<bar>A * P * Q - a * p * q\<bar> \<le> 3 * (1 / 20) * 10000"
    using product_close [OF assms r c] .
  then have d: "\<bar>(A / 100) * (P / 100) * (Q / 100) * 100 - (a / 100) * (p / 100) * (q / 100) * 100\<bar> \<le> 3 / 20"
    by (simp add: field_simps abs_if split: if_splits)
  have o1: "\<bar>round1 ((a / 100) * (p / 100) * (q / 100) * 100) - (a / 100) * (p / 100) * (q / 100) * 100\<bar> \<le> 1 / 20"
    by (rule round1_close)
  have o2: "\<bar>round1 ((A / 100) * (P / 100) * (Q / 100) * 100) - (A / 100) * (P / 100) * (Q / 100) * 100\<bar> \<le> 1 / 20"
    by (rule round1_close)
  have "\<bar>round1 ((a / 100) * (p / 100) * (q / 100) * 100)
          - round1 ((A / 100) * (P / 100) * (Q / 100) * 100)\<bar> \<le> 1 / 4"
    using d o1 o2 by linarith
  then show ?thesis
    unfolding A_def [symmetric] P_def [symmetric] Q_def [symmetric] unfolding round1_def [of "(a / 100) * (p / 100) * (q / 100) * 100"]
      round1_def [of "(A / 100) * (P / 100) * (Q / 100) * 100"]
    by (rule tenths_close)
qed

lemma availability_nonneg: "0 \<le> availability planned downtime"
  by (simp add: availability_def runTimeMs_def)

text \<open>
  Claim C2, amended.  For every machine the reported Availability, Performance and Quality
  are the clamped one-decimal roundings of the unrounded factors, and the reported OEE is
  the clamped one-decimal rounding of Availability/100 * Performance/100 * Quality/100 * 100
  taken over the unrounded, unclamped factors.  When every unrounded factor lies in
  [0, 100] (no clamp changes a value), the reported OEE differs from the one-decimal
  rounding of the product of the reported percentages by at most 0.2.
\<close>

theorem oee_from_unrounded_factors:
  assumes "i < length machines"
    and "machine = machines ! i"
    and "planned = gest workHours now"
    and "downtime = downtimeTodayMs cad now workHours machine"
    and "x = calculateFleetMetrics cad gest now machines history workHours ! i"
  shows "mm_availability x = clampPercent (round1 (availability planned downtime))
    \<and> mm_performance x = clampPercent (round1 (performance planned downtime machine))
    \<and> mm_quality x = clampPercent (round1 (quality machine))
    \<and> mm_oee x = clampPercent (round1
          ((availability planned downtime / 100) * (performance planned downtime machine / 100)
             * (quality machine / 100) * 100))
    \<and> (availability planned downtime \<le> 100
         \<and> 0 \<le> performance planned downtime machine
         \<and> performance planned downtime machine \<le> 100
         \<and> 0 \<le> quality machine \<and> quality machine \<le> 100
       \<longrightarrow> \<bar>mm_oee x - round1
             ((mm_availability x / 100) * (mm_performance x / 100) * (mm_quality x / 100) * 100)\<bar>
           \<le> 2 / 10)"
proof -
  define a p q where "a = availability planned downtime"
    and "p = performance planned downtime machine" and "q = quality machine"
  have x: "x = machineMetrics cad now workHours
      (getDowntimeIntervals cad now history machines workHours None) planned machine"
    using assms by (simp add: calculateFleetMetrics_def Let_def)
  have fa: "mm_availability x = clampPercent (round1 a)"
    and fp: "mm_performance x = clampPercent (round1 p)"
    and fq: "mm_quality x = clampPercent (round1 q)"
    and fo: "mm_oee x = clampPercent (round1 ((a / 100) * (p / 100) * (q / 100) * 100))"
    unfolding x a_def p_def q_def
    by (simp_all add: machineMetrics_def Let_def oee_def assms(4))
  have bound: "\<bar>mm_oee x - round1
        ((mm_availability x / 100) * (mm_performance x / 100) * (mm_quality x / 100) * 100)\<bar>
      \<le> 2 / 10"
    if h: "a \<le> 100" "0 \<le> p" "p \<le> 100" "0 \<le> q" "q \<le> 100"
  proof -
    have a0: "0 \<le> a" unfolding a_def by (rule availability_nonneg)
    have ap: "0 \<le> a * p \<and> a * p \<le> 100 * 100"
      using a0 h mult_mono [of a 100 p 100] by simp
    then have apq: "0 \<le> a * p * q \<and> a * p * q \<le> (100 * 100) * 100"
      using h mult_mono [of "a * p" "100 * 100" q 100] by simp
    have o: "0 \<le> (a / 100) * (p / 100) * (q / 100) * 100
        \<and> (a / 100) * (p / 100) * (q / 100) * 100 \<le> 100"
      using apq by (simp add: field_simps)
    have "mm_availability x = round1 a" "mm_performance x = round1 p" "mm_quality x = round1 q"
      "mm_oee x = round1 ((a / 100) * (p / 100) * (q / 100) * 100)"
      unfolding fa fp fq fo using a0 h o round1_range clampPercent_id by simp_all
    then show ?thesis
      using oee_close [OF a0 h] by simp
  qed
  show ?thesis
    using fa fp fq fo bound unfolding a_def p_def q_def by blast
qed

text \<open>The amended claim at the machine of the counterexample.\<close>

theorem oee_from_unrounded_factors_witness:
  "availability 3600000 0 \<le> 100
   \<and> 0 \<le> performance 3600000 0 (exampleMachine\<lparr>m_productionCount := 64, m_scrapCount := 32\<rparr>)
   \<and> performance 3600000 0 (exampleMachine\<lparr>m_productionCount := 64, m_scrapCount := 32\<rparr>) \<le> 100
   \<and> 0 \<le> quality (exampleMachine\<lparr>m_productionCount := 64, m_scrapCount := 32\<rparr>)
   \<and> quality (exampleMachine\<lparr>m_productionCount := 64, m_scrapCount := 32\<rparr>) \<le> 100
   \<and> mm_oee (calculateFleetMetrics rawClock oneHourShift 7200000
        [exampleMachine\<lparr>m_productionCount := 64, m_scrapCount := 32\<rparr>] [] shiftConfig ! 0)
       = clampPercent (round1 ((availability 3600000 0 / 100)
           * (performance 3600000 0 (exampleMachine\<lparr>m_productionCount := 64, m_scrapCount := 32\<rparr>) / 100)
           * (quality (exampleMachine\<lparr>m_productionCount := 64, m_scrapCount := 32\<rparr>) / 100) * 100))
   \<and> \<bar>mm_oee (calculateFleetMetrics rawClock oneHourShift 7200000
        [exampleMachine\<lparr>m_productionCount := 64, m_scrapCount := 32\<rparr>] [] shiftConfig ! 0)
      - round1
          ((mm_availability (calculateFleetMetrics rawClock oneHourShift 7200000
              [exampleMachine\<lparr>m_productionCount := 64, m_scrapCount := 32\<rparr>] [] shiftConfig ! 0) / 100)
           * (mm_performance (calculateFleetMetrics rawClock oneHourShift 7200000
              [exampleMachine\<lparr>m_productionCount := 64, m_scrapCount := 32\<rparr>] [] shiftConfig ! 0) / 100)
           * (mm_quality (calculateFleetMetrics rawClock oneHourShift 7200000
              [exampleMachine\<lparr>m_productionCount := 64, m_scrapCount := 32\<rparr>] [] shiftConfig ! 0) / 100)
           * 100)\<bar> \<le> 2 / 10"
proof -
  let ?m = "exampleMachine\<lparr>m_productionCount := 64, m_scrapCount := 32\<rparr>"
  have d: "downtimeTodayMs rawClock 7200000 shiftConfig ?m = 0" by code_simp
  have g: "oneHourShift shiftConfig 7200000 = 3600000" by code_simp
  have p: "availability 3600000 0 \<le> 100
    \<and> 0 \<le> performance 3600000 0 ?m \<and> performance 3600000 0 ?m \<le> 100
    \<and> 0 \<le> quality ?m \<and> quality ?m \<le> 100"
    by code_simp
  have l: "0 < length [?m]" by simp
  have e: "?m = [?m] ! 0" by simp
  note t = oee_from_unrounded_factors [where gest = oneHourShift and workHours = shiftConfig
      and now = 7200000 and cad = rawClock and history = "[]", OF l e refl refl refl,
      unfolded d g]
  show ?thesis
    using t p by blast
qed

section \<open>The Pareto ranking\<close>

subsection \<open>Durations are not negative\<close>

lemma replay_durations_nonneg:
  assumes "sorted (map l_timestamp logs)"
    and "\<forall>i \<in> set ivs. 0 \<le> i_duration i"
    and "\<forall>m s. act m = Some s \<longrightarrow> (\<forall>e \<in> set logs. a_start s \<le> l_timestamp e)"
  shows "\<forall>i \<in> set (fst (foldl (replayLog fs) (ivs, act) logs)). 0 \<le> i_duration i"
  using assms
proof (induction logs arbitrary: ivs act)
  case Nil
  then show ?case by simp
next
  case (Cons ev logs)
  have srt: "sorted (map l_timestamp logs)" and later: "\<forall>e \<in> set logs. l_timestamp ev \<le> l_timestamp e"
    using Cons.prems(1) by simp_all
  have act_later: "\<forall>m s. act m = Some s \<longrightarrow> (\<forall>e \<in> set logs. a_start s \<le> l_timestamp e)"
    using Cons.prems(3) by simp
  have act_now: "\<forall>m s. act m = Some s \<longrightarrow> a_start s \<le> l_timestamp ev"
    using Cons.prems(3) by simp
  obtain ivs' act' where s: "replayLog fs (ivs, act) ev = (ivs', act')"
    by (cases "replayLog fs (ivs, act) ev")
  have "(\<forall>i \<in> set ivs'. 0 \<le> i_duration i)
    \<and> (\<forall>m s. act' m = Some s \<longrightarrow> (\<forall>e \<in> set logs. a_start s \<le> l_timestamp e))"
  proof (cases "beforeFilter fs (l_timestamp ev)")
    case True
    with s Cons.prems(2) act_later show ?thesis by (simp add: replayLog_simps)
  next
    case nf: False
    show ?thesis
    proof (cases "l_newStatus ev")
      case STOPPED
      with nf s have "ivs' = ivs" "act' = act(l_machineId ev \<mapsto>
          \<lparr>a_start = l_timestamp ev, a_reason = reasonOrDefault (l_reason ev)\<rparr>)"
        by (simp_all add: replayLog_simps)
      with Cons.prems(2) act_later later show ?thesis by simp
    next
      case RUNNING
      show ?thesis
      proof (cases "act (l_machineId ev)")
        case None
        with nf RUNNING s Cons.prems(2) act_later show ?thesis by (simp add: replayLog_simps)
      next
        case (Some open_stop)
        with nf RUNNING s have r: "ivs' = ivs @
            [\<lparr>i_machineId = l_machineId ev, i_reason = a_reason open_stop,
              i_start = a_start open_stop, i_end = l_timestamp ev,
              i_duration = l_timestamp ev - a_start open_stop\<rparr>]"
          "act' = act(l_machineId ev := None)"
          by (simp_all add: replayLog_simps)
        have "a_start open_stop \<le> l_timestamp ev" using act_now Some by blast
        with Cons.prems(2) act_later r show ?thesis by simp
      qed
    qed
  qed
  then have "\<forall>i \<in> set (fst (foldl (replayLog fs) (ivs', act') logs)). 0 \<le> i_duration i"
    using srt by (intro Cons.IH) blast+
  then show ?case by (simp add: s)
qed

lemma intervals_durations_nonneg:
  assumes "\<forall>start. 0 \<le> cad start workHours now"
  shows "\<forall>i \<in> set (getDowntimeIntervals cad now history machines workHours filterStart).
           0 \<le> i_duration i"
proof -
  have "\<forall>i \<in> set (fst (replayLogs filterStart (sort_key l_timestamp history))). 0 \<le> i_duration i"
    unfolding replayLogs_def by (rule replay_durations_nonneg) simp_all
  moreover have "\<forall>i \<in> set (openIntervals cad now workHours
      (snd (replayLogs filterStart (sort_key l_timestamp history))) machines). 0 \<le> i_duration i"
    using assms by (auto simp: openIntervals_iff)
  ultimately show ?thesis by (auto simp: getDowntimeIntervals_def Let_def)
qed

lemma set_update_subset: "set (AList.update k v al) \<subseteq> insert (k, v) (set al)"
  by (induction al) auto

lemma groupInterval_nonneg:
  assumes "\<forall>g \<in> set grouped. 0 \<le> snd (snd g)" and "0 \<le> i_duration i"
  shows "\<forall>g \<in> set (groupInterval grouped i). 0 \<le> snd (snd g)"
proof -
  have "0 \<le> snd (case map_of grouped (i_reason i) of None \<Rightarrow> (0, 0) | Some g \<Rightarrow> g)"
    using assms(1) by (auto split: option.splits dest!: map_of_SomeD)
  then show ?thesis
    using assms set_update_subset [of "i_reason i" _ grouped]
    unfolding groupInterval_def Let_def by fastforce
qed

lemma foldl_groupInterval_nonneg:
  assumes "\<forall>g \<in> set grouped. 0 \<le> snd (snd g)" and "\<forall>i \<in> set intervals. 0 \<le> i_duration i"
  shows "\<forall>g \<in> set (foldl groupInterval grouped intervals). 0 \<le> snd (snd g)"
  using assms
proof (induction intervals arbitrary: grouped)
  case Nil
  then show ?case by simp
next
  case (Cons i intervals)
  have "\<forall>g \<in> set (groupInterval grouped i). 0 \<le> snd (snd g)"
    using Cons.prems by (intro groupInterval_nonneg) simp_all
  then show ?case using Cons.prems(2) by (simp add: Cons.IH)
qed

lemma groupIntervals_nonneg:
  "\<forall>i \<in> set intervals. 0 \<le> i_duration i \<Longrightarrow>
   \<forall>g \<in> set (groupIntervals intervals). 0 \<le> snd (snd g)"
  unfolding groupIntervals_def by (rule foldl_groupInterval_nonneg) simp_all

subsection \<open>The running sum\<close>

lemma foldl_plus: "foldl (\<lambda>acc curr. acc + f curr) (a :: int) xs = a + sum_list (map f xs)"
  by (induction xs arbitrary: a) simp_all

lemma sum_list_sort_key:
  fixes f :: "'a \<Rightarrow> int"
  shows "sum_list (map f (sort_key k xs)) = sum_list (map f xs)"
proof -
  have "sum_list (map f (sort_key k xs)) = sum_mset (mset (map f (sort_key k xs)))"
    by (simp only: sum_mset_sum_list)
  also have "\<dots> = sum_mset (mset (map f xs))" by simp
  also have "\<dots> = sum_list (map f xs)" by (simp only: sum_mset_sum_list)
  finally show ?thesis .
qed

lemma sortedGroups_total:
  "sum_list (map p_durationMs (sortedGroups grouped)) = totalDuration grouped"
  by (simp add: sortedGroups_def totalDuration_def sum_list_sort_key foldl_plus comp_def)

lemma sortedGroups_nonneg:
  "\<forall>g \<in> set grouped. 0 \<le> snd (snd g) \<Longrightarrow>
   \<forall>item \<in> set (sortedGroups grouped). 0 \<le> p_durationMs item"
  by (auto simp: sortedGroups_def)

lemma Math_round_mono: "x \<le> y \<Longrightarrow> Math_round x \<le> Math_round y"
  unfolding Math_round_def by (simp add: floor_mono)

lemma accumulatePercent_sorted:
  assumes "\<forall>item \<in> set items. 0 \<le> p_durationMs item"
  shows "sorted (map (\<lambda>item. the (p_accumulatedPercent item)) (accumulatePercent T acc items))
    \<and> (\<forall>x \<in> set (accumulatePercent T acc items).
          p_accumulatedPercent x \<noteq> None \<and> Math_round acc \<le> the (p_accumulatedPercent x))"
  using assms
proof (induction items arbitrary: acc)
  case Nil
  show ?case by simp
next
  case (Cons item rest)
  define percent :: rat where
    "percent = (if T > 0 then (of_int (p_durationMs item) / of_int T) * 100 else 0)"
  have "0 \<le> p_durationMs item" using Cons.prems by simp
  then have p0: "0 \<le> percent" unfolding percent_def by simp
  have ih: "sorted (map (\<lambda>item. the (p_accumulatedPercent item))
        (accumulatePercent T (acc + percent) rest))
    \<and> (\<forall>x \<in> set (accumulatePercent T (acc + percent) rest).
          p_accumulatedPercent x \<noteq> None
          \<and> Math_round (acc + percent) \<le> the (p_accumulatedPercent x))"
    using Cons.prems by (intro Cons.IH) simp
  have m: "Math_round acc \<le> Math_round (acc + percent)"
    using p0 by (intro Math_round_mono) simp
  have e: "accumulatePercent T acc (item # rest)
      = item\<lparr>p_accumulatedPercent := Some (Math_round (acc + percent))\<rparr>
          # accumulatePercent T (acc + percent) rest"
    by (simp add: Let_def percent_def)
  show ?case unfolding e using ih m by (simp, fastforce)
qed

lemma accumulatePercent_last:
  assumes "items \<noteq> []" and "0 < T"
  shows "accumulatePercent T acc items \<noteq> []
    \<and> p_accumulatedPercent (last (accumulatePercent T acc items))
        = Some (Math_round (acc + (of_int (sum_list (map p_durationMs items)) / of_int T) * 100))"
  using assms
proof (induction items arbitrary: acc)
  case Nil
  then show ?case by simp
next
  case (Cons item rest)
  show ?case
  proof (cases "rest = []")
    case True
    then show ?thesis using Cons.prems by (simp add: Let_def)
  next
    case False
    define acc1 where "acc1 = acc + (of_int (p_durationMs item) / of_int T) * 100"
    have e: "accumulatePercent T acc (item # rest)
        = item\<lparr>p_accumulatedPercent := Some (Math_round acc1)\<rparr>
            # accumulatePercent T acc1 rest"
      using Cons.prems by (simp add: Let_def acc1_def)
    have ih: "accumulatePercent T acc1 rest \<noteq> []
      \<and> p_accumulatedPercent (last (accumulatePercent T acc1 rest))
        = Some (Math_round (acc1 + (of_int (sum_list (map p_durationMs rest)) / of_int T) * 100))"
      using False Cons.prems by (intro Cons.IH) simp_all
    have eq: "acc1 + (of_int (sum_list (map p_durationMs rest)) / of_int T) * 100
        = acc + (of_int (sum_list (map p_durationMs (item # rest))) / of_int T) * 100"
      unfolding acc1_def by (simp add: add_divide_distrib distrib_right)
    have "last (accumulatePercent T acc (item # rest)) = last (accumulatePercent T acc1 rest)"
      unfolding e using ih by simp
    then show ?thesis using ih unfolding eq by (simp only: e) simp
  qed
qed

lemma Math_round_100: "Math_round (0 + 100 / 100 * 100) = 100" by code_simp

text \<open>
  Claim C3.  For every machine list, event log and work-hours configuration (the shift clock
  returning no negative duration), the accumulated percentages of the Pareto output are
  present and non-decreasing along the list, and when the grand total duration is positive
  the list is not empty and the accumulated percentage of its last item is 100, so within
  1 of 100.
\<close>

theorem pareto_cumulative_percent:
  assumes "\<forall>start. 0 \<le> cad start workHours now"
  shows "sorted (map (\<lambda>item. the (p_accumulatedPercent item))
           (calculatePareto cad now machines history workHours))
    \<and> (\<forall>item \<in> set (calculatePareto cad now machines history workHours).
          p_accumulatedPercent item \<noteq> None)
    \<and> (0 < totalDuration (groupIntervals
              (getDowntimeIntervals cad now history machines workHours None)) \<longrightarrow>
          calculatePareto cad now machines history workHours \<noteq> []
          \<and> p_accumulatedPercent (last (calculatePareto cad now machines history workHours))
              = Some 100
          \<and> \<bar>the (p_accumulatedPercent (last (calculatePareto cad now machines history workHours)))
               - 100\<bar> \<le> 1)"
proof -
  let ?grouped = "groupIntervals (getDowntimeIntervals cad now history machines workHours None)"
  let ?T = "totalDuration ?grouped"
  have p: "calculatePareto cad now machines history workHours
      = accumulatePercent ?T 0 (sortedGroups ?grouped)"
    by (simp add: calculatePareto_def Let_def)
  have nn: "\<forall>item \<in> set (sortedGroups ?grouped). 0 \<le> p_durationMs item"
    by (intro sortedGroups_nonneg groupIntervals_nonneg intervals_durations_nonneg assms)
  have s: "sorted (map (\<lambda>item. the (p_accumulatedPercent item))
        (accumulatePercent ?T 0 (sortedGroups ?grouped)))
    \<and> (\<forall>x \<in> set (accumulatePercent ?T 0 (sortedGroups ?grouped)).
          p_accumulatedPercent x \<noteq> None)"
    using accumulatePercent_sorted [OF nn, of ?T 0] by blast
  have l: "accumulatePercent ?T 0 (sortedGroups ?grouped) \<noteq> []
      \<and> p_accumulatedPercent (last (accumulatePercent ?T 0 (sortedGroups ?grouped))) = Some 100"
    if pos: "0 < ?T"
  proof -
    have ne: "sortedGroups ?grouped \<noteq> []"
    proof
      assume "sortedGroups ?grouped = []"
      then have "sum_list (map p_durationMs (sortedGroups ?grouped)) = 0" by simp
      with pos show False by (simp add: sortedGroups_total)
    qed
    have "(0::rat) + (of_int (sum_list (map p_durationMs (sortedGroups ?grouped))) / of_int ?T) * 100
        = 0 + 100 / 100 * 100"
      using pos by (simp add: sortedGroups_total)
    then show ?thesis
      using accumulatePercent_last [OF ne pos, of 0] by (simp only: Math_round_100 simp_thms)
  qed
  show ?thesis unfolding p using s l by simp
qed

text \<open>An instance: 1800000 ms of one cause and 200000 ms of another give 90 and 100.\<close>

theorem pareto_cumulative_percent_witness:
  "0 < totalDuration (groupIntervals (getDowntimeIntervals rawClock 7200000 exampleHistory
         [exampleMachine, stoppedMachine] shiftConfig None))
   \<and> map p_accumulatedPercent
        (calculatePareto rawClock 7200000 [exampleMachine, stoppedMachine] exampleHistory shiftConfig)
       = [Some 90, Some 100]
   \<and> sorted (map (\<lambda>item. the (p_accumulatedPercent item))
        (calculatePareto rawClock 7200000 [exampleMachine, stoppedMachine] exampleHistory shiftConfig))
   \<and> p_accumulatedPercent (last
        (calculatePareto rawClock 7200000 [exampleMachine, stoppedMachine] exampleHistory shiftConfig))
       = Some 100"
proof -
  have h: "\<forall>start. 0 \<le> rawClock start shiftConfig 7200000"
    by (simp add: rawClock_def)
  have t: "0 < totalDuration (groupIntervals (getDowntimeIntervals rawClock 7200000 exampleHistory
         [exampleMachine, stoppedMachine] shiftConfig None))"
    by code_simp
  have v: "map p_accumulatedPercent
        (calculatePareto rawClock 7200000 [exampleMachine, stoppedMachine] exampleHistory shiftConfig)
       = [Some 90, Some 100]"
    by code_simp
  from pareto_cumulative_percent [where cad = rawClock and workHours = shiftConfig
      and now = 7200000 and machines = "[exampleMachine, stoppedMachine]"
      and history = exampleHistory, OF h] t v
  show ?thesis by blast
qed

section \<open>Insights\<close>

lemma worstMachine_minimal:
  assumes "worstMachine metrics = Some w"
  shows "w \<in> set metrics \<and> (\<forall>m \<in> set metrics. mm_oee w \<le> mm_oee m)"
proof -
  from assms obtain rest where s: "sort_key mm_oee metrics = w # rest"
    by (auto simp: worstMachine_def split: list.splits)
  have "sorted (map mm_oee (sort_key mm_oee metrics))" by simp
  then have "\<forall>m \<in> set (sort_key mm_oee metrics). mm_oee w \<le> mm_oee m"
    unfolding s by auto
  moreover have "w \<in> set (sort_key mm_oee metrics)" unfolding s by simp
  ultimately show ?thesis by simp
qed

lemma ruleOf_insights:
  "map ruleOf (generateAIInsights metrics pareto) =
     (if avgOEE metrics < 60 then [1] else [])
     @ (case worstMachine metrics of None \<Rightarrow> [] | Some w \<Rightarrow> if mm_oee w < 70 then [2] else [])
     @ (case pareto of [] \<Rightarrow> [] | t # _ \<Rightarrow> [3])"
  by (simp add: generateAIInsights_def split: option.splits list.splits)

text \<open>
  Claim C9.  The insight generator emits at most one message per rule and in the order of
  the rules (the rule numbers of the returned messages are strictly increasing), so at most
  three messages: the critical-OEE message exactly when the fleet average is below 60, the
  bottleneck message exactly when there is a worst machine and its OEE is below 70, and the
  top-cause message exactly when the Pareto list is not empty.
\<close>

theorem insights_one_per_rule_in_order:
  "sorted_wrt (<) (map ruleOf (generateAIInsights metrics pareto))
   \<and> length (generateAIInsights metrics pareto) \<le> 3
   \<and> (\<forall>k. length (filter (\<lambda>x. ruleOf x = k) (generateAIInsights metrics pareto)) \<le> 1)
   \<and> ((\<exists>v. OeeCritico v \<in> set (generateAIInsights metrics pareto)) = (avgOEE metrics < 60))
   \<and> ((\<exists>n v. GargaloIdentificado n v \<in> set (generateAIInsights metrics pareto))
        = (\<exists>w. worstMachine metrics = Some w \<and> mm_oee w < 70))
   \<and> ((\<exists>r. CausaPrincipal r \<in> set (generateAIInsights metrics pareto)) = (pareto \<noteq> []))"
proof -
  have s: "sorted_wrt (<) (map ruleOf (generateAIInsights metrics pareto))"
    unfolding ruleOf_insights by (simp split: option.splits list.splits)
  have l: "length (generateAIInsights metrics pareto) \<le> 3"
    by (simp add: generateAIInsights_def split: option.splits list.splits)
  have f: "length (filter (\<lambda>x. ruleOf x = k) (generateAIInsights metrics pareto)) \<le> 1" for k
    by (simp add: generateAIInsights_def split: option.splits list.splits)
  have a: "(\<exists>v. OeeCritico v \<in> set (generateAIInsights metrics pareto)) = (avgOEE metrics < 60)"
    by (auto simp: generateAIInsights_def split: option.splits list.splits if_splits)
  have b: "(\<exists>n v. GargaloIdentificado n v \<in> set (generateAIInsights metrics pareto))
        = (\<exists>w. worstMachine metrics = Some w \<and> mm_oee w < 70)"
    by (cases "worstMachine metrics")
      (auto simp: generateAIInsights_def split: list.splits if_splits)
  have c: "(\<exists>r. CausaPrincipal r \<in> set (generateAIInsights metrics pareto)) = (pareto \<noteq> [])"
    by (cases pareto; cases "worstMachine metrics")
      (auto simp: generateAIInsights_def split: if_splits)
  from s l f a b c show ?thesis by blast
qed

text \<open>
  Claim C10.  With no machine metrics the fleet average is 0 (the sum 0 divided by the
  fallback denominator 1), which is below 60: the critical-OEE message is emitted, first,
  so the result is not empty, and no bottleneck message is emitted.
\<close>

theorem insights_without_machines:
  "avgOEE [] = 0
   \<and> generateAIInsights [] pareto \<noteq> []
   \<and> hd (generateAIInsights [] pareto) = OeeCritico 0
   \<and> (\<forall>n v. GargaloIdentificado n v \<notin> set (generateAIInsights [] pareto))
   \<and> generateAIInsights [] [] = [OeeCritico 0]"
  by (simp add: generateAIInsights_def avgOEE_def worstMachine_def split: list.splits)

end
